theory Spec2Isabelle
  imports Main "HOL-Library.Log_Nat"
begin

section \<open>Python numbers\<close>

text \<open>
  The two programs compute with Python \<^verbatim>\<open>int\<close> and \<^verbatim>\<open>float\<close> values. An \<^verbatim>\<open>int\<close> is an
  unbounded integer. A \<^verbatim>\<open>float\<close> is an IEEE 754 binary64 number: it is modelled by the
  rational number it denotes, and every floating-point operation is the exact operation
  followed by rounding to the nearest number with a 53-bit significand, ties to the even
  significand (\<open>b64\<close>). The exponent range is not bounded in the model, so overflow to
  infinity and gradual underflow are not represented; the model and binary64 agree whenever
  every value met is zero or of magnitude between \<open>2 powi - 1022\<close> and \<open>2 powi 1024\<close>.
\<close>

definition expo :: "rat \<Rightarrow> int" where
  \<comment> \<open>the binary exponent of a positive number: \<open>2 powi expo x \<le> x < 2 powi (expo x + 1)\<close>\<close>
  "expo x = (if 1 \<le> x then bitlen \<lfloor>x\<rfloor> - 1 else - bitlen (\<lceil>1 / x\<rceil> - 1))"

definition rhe :: "rat \<Rightarrow> int" where
  \<comment> \<open>round to the nearest integer, halves to the even one\<close>
  "rhe y = (let f = \<lfloor>y\<rfloor>; r = y - of_int f in
     if r < 1 / 2 then f else if 1 / 2 < r then f + 1 else if even f then f else f + 1)"

definition quantum :: "rat \<Rightarrow> rat" where
  \<comment> \<open>the spacing of the 53-bit numbers in the binade of \<open>x\<close>\<close>
  "quantum x = 2 powi (expo \<bar>x\<bar> - 52)"

definition b64 :: "rat \<Rightarrow> rat" where
  "b64 x = (if x = 0 then 0 else sgn x * of_int (rhe (\<bar>x\<bar> / quantum x)) * quantum x)"

datatype pynum = PyInt int | PyFloat rat

datatype pyerror = ZeroDivisionError

fun val :: "pynum \<Rightarrow> rat" where
  \<comment> \<open>the number a Python value denotes\<close>
  "val (PyInt n) = of_int n"
| "val (PyFloat x) = x"

fun to_float :: "pynum \<Rightarrow> rat" where
  \<comment> \<open>the implicit conversion of an operand to \<^verbatim>\<open>float\<close>\<close>
  "to_float (PyInt n) = b64 (of_int n)"
| "to_float (PyFloat x) = x"

definition lit :: "rat \<Rightarrow> pynum" where
  \<comment> \<open>a \<^verbatim>\<open>float\<close> literal denotes the nearest binary64 number\<close>
  "lit x = PyFloat (b64 x)"

fun py_add :: "pynum \<Rightarrow> pynum \<Rightarrow> pynum" where
  "py_add (PyInt m) (PyInt n) = PyInt (m + n)"
| "py_add a b = PyFloat (b64 (to_float a + to_float b))"

fun py_sub :: "pynum \<Rightarrow> pynum \<Rightarrow> pynum" where
  "py_sub (PyInt m) (PyInt n) = PyInt (m - n)"
| "py_sub a b = PyFloat (b64 (to_float a - to_float b))"

fun py_mul :: "pynum \<Rightarrow> pynum \<Rightarrow> pynum" where
  "py_mul (PyInt m) (PyInt n) = PyInt (m * n)"
| "py_mul a b = PyFloat (b64 (to_float a * to_float b))"

fun py_truediv :: "pynum \<Rightarrow> pynum \<Rightarrow> pyerror + pynum" where
  \<comment> \<open>\<^verbatim>\<open>/\<close>: the quotient of two ints is the correctly rounded quotient; a zero divisor raises\<close>
  "py_truediv (PyInt m) (PyInt n) =
     (if n = 0 then Inl ZeroDivisionError else Inr (PyFloat (b64 (of_int m / of_int n))))"
| "py_truediv a b =
     (if to_float b = 0 then Inl ZeroDivisionError
      else Inr (PyFloat (b64 (to_float a / to_float b))))"

definition raising :: "pyerror + 'a \<Rightarrow> ('a \<Rightarrow> pyerror + 'b) \<Rightarrow> pyerror + 'b" where
  \<comment> \<open>sequencing: an exception raised by the first computation ends the function\<close>
  "raising m f = (case m of Inl e \<Rightarrow> Inl e | Inr x \<Rightarrow> f x)"

section \<open>The empirical mix calculator (streamlit\_app3.py)\<close>

text \<open>The returned dictionary has a fixed set of keys: a record, one field per key.\<close>

record mix =
  Cement_kg :: pynum
  Water_kg :: pynum
  Fine_Aggregate_kg :: pynum
  Coarse_Aggregate_kg :: pynum
  w_c :: pynum

definition design_mix :: "pynum \<Rightarrow> pynum \<Rightarrow> pyerror + mix" where
  "design_mix strength slump =
     (let cement = py_add (PyInt 350) (py_mul (py_sub strength (PyInt 20)) (PyInt 5)) in
      raising (py_truediv slump (PyInt 150)) (\<lambda>q1.
      let water = py_add (PyInt 180) (py_mul q1 (PyInt 20)) in
      raising (py_truediv slump (PyInt 150)) (\<lambda>q2.
      let fine_agg = py_sub (PyInt 700) (py_mul q2 (PyInt 50));
          coarse_agg = py_sub (PyInt 1100) (py_mul (py_sub strength (PyInt 20)) (PyInt 10)) in
      raising (py_truediv water cement) (\<lambda>w_c_ratio.
      Inr \<lparr>Cement_kg = cement, Water_kg = water, Fine_Aggregate_kg = fine_agg,
           Coarse_Aggregate_kg = coarse_agg, w_c = w_c_ratio\<rparr>))))"

record optimized =
  opt_Cement_kg :: pynum
  SCMs_kg :: pynum
  opt_Water_kg :: pynum
  opt_Fine_Aggregate_kg :: pynum
  Fine_Recycled_Agg_kg :: pynum
  opt_Coarse_Aggregate_kg :: pynum
  Coarse_Recycled_Agg_kg :: pynum
  opt_w_c :: pynum
  New_Strength_MPa :: pynum
  New_Slump_mm :: pynum
  CO2_Reduction_pct :: pynum
  Cost_Reduction_pct :: pynum

text \<open>
  The two calls of \<^verbatim>\<open>np.random.uniform\<close> are the only source of randomness; their results
  are the parameters \<open>u1\<close> (drawn from 0 to 2) and \<open>u2\<close> (drawn from -10 to 10).
\<close>

definition optimize_mix :: "mix \<Rightarrow> pynum \<Rightarrow> pynum \<Rightarrow> rat \<Rightarrow> rat \<Rightarrow> pyerror + optimized" where
  "optimize_mix base_mix strength slump u1 u2 =
     (let cement = py_mul (Cement_kg base_mix) (lit (7 / 10));
          scms = py_mul (Cement_kg base_mix) (lit (3 / 10));
          coarse_nat = py_mul (Coarse_Aggregate_kg base_mix) (lit (8 / 10));
          coarse_recycled = py_mul (Coarse_Aggregate_kg base_mix) (lit (2 / 10));
          fine_nat = py_mul (Fine_Aggregate_kg base_mix) (lit (85 / 100));
          fine_recycled = py_mul (Fine_Aggregate_kg base_mix) (lit (15 / 100));
          water = py_mul (Water_kg base_mix) (lit (102 / 100));
          new_strength = py_sub strength (PyFloat u1);
          new_slump = py_add slump (PyFloat u2);
          co2_reduction = PyInt 25;
          cost_reduction = PyInt 15 in
      raising (py_truediv water (py_add cement scms)) (\<lambda>ratio.
      Inr \<lparr>opt_Cement_kg = cement, SCMs_kg = scms, opt_Water_kg = water,
           opt_Fine_Aggregate_kg = fine_nat, Fine_Recycled_Agg_kg = fine_recycled,
           opt_Coarse_Aggregate_kg = coarse_nat, Coarse_Recycled_Agg_kg = coarse_recycled,
           opt_w_c = ratio, New_Strength_MPa = new_strength, New_Slump_mm = new_slump,
           CO2_Reduction_pct = co2_reduction, Cost_Reduction_pct = cost_reduction\<rparr>))"

section \<open>The volumetric mix calculator (streamlit\_app.py)\<close>

definition SG_cement :: pynum where "SG_cement = lit (315 / 100)"
definition SG_fine :: pynum where "SG_fine = lit (265 / 100)"
definition SG_coarse :: pynum where "SG_coarse = lit (270 / 100)"
definition SG_water :: pynum where "SG_water = lit 1"

record volumetric =
  v_cement_content :: pynum
  v_water_content :: pynum
  v_volume_cement :: pynum
  v_volume_water :: pynum
  v_volume_aggregates :: pynum
  v_fine_agg_mass :: pynum
  v_coarse_agg_mass :: pynum

text \<open>
  The script reads the strength \<open>fc\<close> (not used afterwards), \<open>w_c_ratio\<close> and
  \<open>fine_ratio\<close> from its widgets and computes the quantities below in this order.
\<close>

definition volumetric_mix :: "pynum \<Rightarrow> pynum \<Rightarrow> pynum \<Rightarrow> pyerror + volumetric" where
  "volumetric_mix fc w_c_ratio fine_ratio =
     (let cement_content = PyInt 400;
          water_content = py_mul cement_content w_c_ratio in
      raising (py_truediv cement_content (py_mul SG_cement (PyInt 1000))) (\<lambda>volume_cement.
      raising (py_truediv water_content (py_mul SG_water (PyInt 1000))) (\<lambda>volume_water.
      let volume_aggregates = py_sub (PyInt 1) (py_add volume_cement volume_water);
          coarse_ratio = py_sub (PyInt 1) fine_ratio;
          fine_agg_mass =
            py_mul (py_mul (py_mul volume_aggregates fine_ratio) SG_fine) (PyInt 1000);
          coarse_agg_mass =
            py_mul (py_mul (py_mul volume_aggregates coarse_ratio) SG_coarse) (PyInt 1000) in
      Inr \<lparr>v_cement_content = cement_content, v_water_content = water_content,
           v_volume_cement = volume_cement, v_volume_water = volume_water,
           v_volume_aggregates = volume_aggregates,
           v_fine_agg_mass = fine_agg_mass, v_coarse_agg_mass = coarse_agg_mass\<rparr>)))"


text \<open>
  The balance that the specification checks on a result of the volumetric calculator: the
  volume of each aggregate is recovered from its mass as mass / (specific gravity * 1000),
  the way the script computes the volumes of cement and water, and the four volumes are
  added, all in Python arithmetic. The script itself does not compute this sum.
\<close>

definition volume_balance :: "volumetric \<Rightarrow> pyerror + pynum" where
  "volume_balance r =
     raising (py_truediv (v_fine_agg_mass r) (py_mul SG_fine (PyInt 1000))) (\<lambda>fine_volume.
     raising (py_truediv (v_coarse_agg_mass r) (py_mul SG_coarse (PyInt 1000))) (\<lambda>coarse_volume.
     Inr (py_add (py_add (py_add (v_volume_cement r) (v_volume_water r)) fine_volume)
            coarse_volume)))"

section \<open>Properties of rounding\<close>

subsection \<open>The binary exponent\<close>

lemma bitlen_pos: "0 < n \<Longrightarrow> 1 \<le> bitlen n"
  using bitlen_nonneg[of n] bitlen_eq_zero_iff[of n] by linarith

lemma expo_ge1:
  fixes x :: rat
  assumes "1 \<le> x"
  shows "2 powi (expo x) \<le> x \<and> x < 2 powi (expo x + 1)"
proof -
  define n where "n = \<lfloor>x\<rfloor>"
  have n1: "1 \<le> n" using assms by (simp add: n_def le_floor_iff)
  then have bl: "1 \<le> bitlen n" using bitlen_pos[of n] by simp
  have e: "expo x = bitlen n - 1" using assms by (simp add: expo_def n_def)
  from bitlen_bounds[of n] n1 have b1: "2 ^ nat (bitlen n - 1) \<le> n" and b2: "n < 2 ^ nat (bitlen n)"
    by auto
  have "(2::rat) powi (bitlen n - 1) = 2 ^ nat (bitlen n - 1)"
    using bl by (simp add: power_int_def)
  also have "\<dots> = of_int (2 ^ nat (bitlen n - 1))" by simp
  also have "\<dots> \<le> of_int n" using b1 by (simp only: of_int_le_iff)
  also have "\<dots> \<le> x" by (simp add: n_def)
  finally have lo: "2 powi (expo x) \<le> x" by (simp add: e)
  have "n + 1 \<le> 2 ^ nat (bitlen n)" using b2 by simp
  then have "(of_int (n + 1) :: rat) \<le> of_int (2 ^ nat (bitlen n))" by (simp only: of_int_le_iff)
  moreover have "x < of_int (n + 1)" unfolding n_def by linarith
  moreover have "(2::rat) powi (bitlen n) = 2 ^ nat (bitlen n)" using bl by (simp add: power_int_def)
  ultimately have hi: "x < 2 powi (expo x + 1)" by (simp add: e)
  from lo hi show ?thesis ..
qed

lemma expo_lt1:
  fixes x :: rat
  assumes "0 < x" "x < 1"
  shows "2 powi (expo x) \<le> x \<and> x < 2 powi (expo x + 1)"
proof -
  define y where "y = 1 / x"
  define m where "m = \<lceil>y\<rceil>"
  define k where "k = bitlen (m - 1)"
  have y1: "1 < y" using assms by (simp add: y_def)
  have m2: "2 \<le> m" using y1 unfolding m_def by linarith
  then have k1: "1 \<le> k" using bitlen_pos[of "m - 1"] by (simp add: k_def)
  have e: "expo x = - k" using assms by (simp add: expo_def k_def m_def y_def)
  from bitlen_bounds[of "m - 1"] m2 have b1: "2 ^ nat (k - 1) \<le> m - 1" and b2: "m - 1 < 2 ^ nat k"
    by (auto simp: k_def)
  have "(of_int (2 ^ nat (k - 1)) :: rat) \<le> of_int (m - 1)" using b1 by (simp only: of_int_le_iff)
  moreover have "of_int (m - 1) < y" unfolding m_def by linarith
  ultimately have ylo: "2 ^ nat (k - 1) < y" by simp
  have "m \<le> 2 ^ nat k" using b2 by simp
  then have "(of_int m :: rat) \<le> 2 ^ nat k" by simp
  moreover have "y \<le> of_int m" unfolding m_def by linarith
  ultimately have yhi: "y \<le> 2 ^ nat k" by (rule order_trans[rotated])
  have p1: "(2::rat) powi (- k) = 1 / 2 ^ nat k" using k1 by (simp add: power_int_def field_simps)
  have p2: "(2::rat) powi (1 - k) = 1 / 2 ^ nat (k - 1)"
    using k1 by (simp add: power_int_def field_simps nat_diff_distrib)
  have "1 / 2 ^ nat k \<le> x" using yhi assms by (simp add: y_def field_simps)
  moreover have "x < 1 / 2 ^ nat (k - 1)" using ylo assms by (simp add: y_def field_simps)
  ultimately show ?thesis by (simp add: e p1 p2)
qed

lemma expo_bounds:
  fixes x :: rat
  assumes "0 < x"
  shows "2 powi (expo x) \<le> x" and "x < 2 powi (expo x + 1)"
  using expo_ge1[of x] expo_lt1[of x] assms by (cases "1 \<le> x"; simp)+

subsection \<open>Rounding to an integer\<close>

lemma rhe_cases:
  "rhe y = \<lfloor>y\<rfloor> \<and> y - of_int \<lfloor>y\<rfloor> \<le> 1 / 2 \<or> rhe y = \<lfloor>y\<rfloor> + 1 \<and> 1 / 2 \<le> y - of_int \<lfloor>y\<rfloor>"
  by (auto simp: rhe_def Let_def)

lemma rhe_err: "\<bar>of_int (rhe y) - y\<bar> \<le> 1 / 2"
proof -
  have "of_int \<lfloor>y\<rfloor> \<le> y" "y < of_int \<lfloor>y\<rfloor> + 1" by linarith+
  with rhe_cases[of y] show ?thesis by auto
qed

lemma rhe_of_int [simp]: "rhe (of_int n) = n"
  by (simp add: rhe_def)

lemma rhe_mono:
  assumes "x \<le> y"
  shows "rhe x \<le> rhe y"
proof -
  have fl: "\<lfloor>x\<rfloor> \<le> \<lfloor>y\<rfloor>" using assms by (rule floor_mono)
  show ?thesis
  proof (cases "\<lfloor>x\<rfloor> = \<lfloor>y\<rfloor>")
    case True
    then have "x - of_int \<lfloor>x\<rfloor> \<le> y - of_int \<lfloor>y\<rfloor>" using assms by simp
    then show ?thesis using True by (auto simp: rhe_def Let_def)
  next
    case False
    with fl have "\<lfloor>x\<rfloor> + 1 \<le> \<lfloor>y\<rfloor>" by simp
    moreover have "rhe x \<le> \<lfloor>x\<rfloor> + 1" using rhe_cases[of x] by auto
    moreover have "\<lfloor>y\<rfloor> \<le> rhe y" using rhe_cases[of y] by auto
    ultimately show ?thesis by linarith
  qed
qed

lemma rhe_ge: "of_int a \<le> y \<Longrightarrow> a \<le> rhe y"
  using rhe_mono[of "of_int a" y] by simp

lemma rhe_le: "y \<le> of_int b \<Longrightarrow> rhe y \<le> b"
  using rhe_mono[of y "of_int b"] by simp

subsection \<open>Rounding to binary64\<close>

lemma powi_pos [simp]: "0 < (2::rat) powi k"
  by (simp add: power_int_def)

lemma powi_succ: "(2::rat) powi (k + 1) = 2 * 2 powi k"
  by (simp add: power_int_add)

lemma powi_mono: "a \<le> b \<Longrightarrow> (2::rat) powi a \<le> 2 powi b"
  by (rule power_int_increasing) simp_all

lemma powi_less_cancel: "(2::rat) powi a < 2 powi b \<Longrightarrow> a < b"
  using powi_mono[of b a] by (cases "a < b") simp_all

lemma expo_unique:
  fixes x :: rat
  assumes "2 powi e \<le> x" "x < 2 powi (e + 1)"
  shows "expo x = e"
proof -
  have x0: "0 < x" using assms(1) powi_pos[of e] by linarith
  note b = expo_bounds[OF x0]
  have "(2::rat) powi e < 2 powi (expo x + 1)" using assms(1) b(2) by linarith
  then have "e < expo x + 1" by (rule powi_less_cancel)
  moreover have "(2::rat) powi (expo x) < 2 powi (e + 1)" using assms(2) b(1) by linarith
  then have "expo x < e + 1" by (rule powi_less_cancel)
  ultimately show ?thesis by simp
qed

lemma expo_mono:
  fixes x y :: rat
  assumes "0 < x" "x \<le> y"
  shows "expo x \<le> expo y"
proof -
  have "(2::rat) powi (expo x) < 2 powi (expo y + 1)"
    using expo_bounds(1)[OF assms(1)] expo_bounds(2)[of y] assms by linarith
  then have "expo x < expo y + 1" by (rule powi_less_cancel)
  then show ?thesis by simp
qed

text \<open>The scaled significand of a positive number lies between \<open>2 ^ 52\<close> and \<open>2 ^ 53\<close>.\<close>

lemma scaled_bounds:
  fixes x :: rat
  assumes "0 < x"
  shows "2 ^ 52 \<le> x / quantum x" and "x / quantum x < 2 ^ 53"
proof -
  have q: "quantum x = 2 powi (expo x) / 2 ^ 52"
    using assms by (simp add: quantum_def power_int_diff)
  note b = expo_bounds[OF assms]
  have p: "0 < (2::rat) powi (expo x)" by simp
  show "2 ^ 52 \<le> x / quantum x"
    using b(1) p unfolding q by (simp add: field_simps)
  have "x < 2 * 2 powi (expo x)" using b(2) by (simp add: powi_succ)
  then show "x / quantum x < 2 ^ 53"
    using p unfolding q by (simp add: field_simps)
qed

lemma quantum_pos [simp]: "0 < quantum x"
  by (simp add: quantum_def)

lemma b64_pos_eq: "0 < x \<Longrightarrow> b64 x = of_int (rhe (x / quantum x)) * quantum x"
  by (simp add: b64_def)

lemma b64_minus: "b64 (- x) = - b64 x"
  by (simp add: b64_def quantum_def)

lemma sig_bounds:
  fixes x :: rat
  assumes "0 < x"
  shows "2 ^ 52 \<le> rhe (x / quantum x)" and "rhe (x / quantum x) \<le> 2 ^ 53"
proof -
  have "(of_int (2 ^ 52) :: rat) \<le> x / quantum x" using scaled_bounds(1)[OF assms] by simp
  then show "2 ^ 52 \<le> rhe (x / quantum x)" by (rule rhe_ge)
  have "x / quantum x \<le> (of_int (2 ^ 53) :: rat)" using scaled_bounds(2)[OF assms] by simp
  then show "rhe (x / quantum x) \<le> 2 ^ 53" by (rule rhe_le)
qed

lemma b64_pos_bounds:
  fixes x :: rat
  assumes "0 < x"
  shows "2 powi (expo x) \<le> b64 x" and "b64 x \<le> 2 powi (expo x + 1)"
proof -
  have q: "quantum x = 2 powi (expo x) / 2 ^ 52"
    using assms by (simp add: quantum_def power_int_diff)
  have p: "0 < (2::rat) powi (expo x)" by simp
  have "(2 ^ 52 :: rat) \<le> of_int (rhe (x / quantum x))"
    using sig_bounds(1)[OF assms] by (metis of_int_le_iff of_int_numeral of_int_power)
  then have "2 ^ 52 * quantum x \<le> of_int (rhe (x / quantum x)) * quantum x"
    by (simp add: mult_right_mono)
  then show "2 powi (expo x) \<le> b64 x" using assms by (simp add: b64_pos_eq q)
  have "(of_int (rhe (x / quantum x)) :: rat) \<le> 2 ^ 53"
    using sig_bounds(2)[OF assms] by (metis of_int_le_iff of_int_numeral of_int_power)
  then have "of_int (rhe (x / quantum x)) * quantum x \<le> 2 ^ 53 * quantum x"
    by (simp add: mult_right_mono)
  then show "b64 x \<le> 2 powi (expo x + 1)"
    using assms by (simp add: b64_pos_eq q powi_succ)
qed

lemma b64_pos: "0 < x \<Longrightarrow> 0 < b64 x"
  using b64_pos_bounds(1)[of x] powi_pos[of "expo x"] by linarith

lemma b64_zero [simp]: "b64 0 = 0"
  by (simp add: b64_def)

lemma b64_neg: "x < 0 \<Longrightarrow> b64 x < 0"
  using b64_pos[of "- x"] by (simp add: b64_minus)

lemma b64_nonneg: "0 \<le> x \<Longrightarrow> 0 \<le> b64 x"
  using b64_pos[of x] by (cases "x = 0") (simp_all add: less_eq_rat_def[symmetric] order_less_le)

lemma b64_eq_0_iff [simp]: "b64 x = 0 \<longleftrightarrow> x = 0"
  using b64_pos[of x] b64_neg[of x] by (cases "x = 0"; cases "0 < x"; force)

lemma b64_err_pos:
  fixes x :: rat
  assumes "0 < x"
  shows "\<bar>b64 x - x\<bar> \<le> x / 2 ^ 53"
proof -
  define q where "q = quantum x"
  have q0: "0 < q" by (simp add: q_def)
  have q: "q = 2 powi (expo x) / 2 ^ 52"
    using assms by (simp add: q_def quantum_def power_int_diff)
  have "b64 x - x = (of_int (rhe (x / q)) - x / q) * q"
    using assms q0 by (simp add: b64_pos_eq q_def[symmetric] field_simps)
  then have "\<bar>b64 x - x\<bar> = \<bar>of_int (rhe (x / q)) - x / q\<bar> * q"
    using q0 by (simp add: abs_mult)
  also have "\<dots> \<le> 1 / 2 * q"
    using rhe_err[of "x / q"] q0 by (simp add: mult_right_mono)
  also have "\<dots> = 2 powi (expo x) / 2 ^ 53" by (simp add: q)
  also have "\<dots> \<le> x / 2 ^ 53"
    using expo_bounds(1)[OF assms] by (simp add: divide_right_mono)
  finally show ?thesis .
qed

lemma b64_err: "\<bar>b64 x - x\<bar> \<le> \<bar>x\<bar> / 2 ^ 53"
proof -
  consider "0 < x" | "x = 0" | "x < 0" by linarith
  then show ?thesis
  proof cases
    case 1
    then show ?thesis using b64_err_pos[of x] by simp
  next
    case 2
    then show ?thesis by simp
  next
    case 3
    then have "\<bar>b64 (- x) - (- x)\<bar> \<le> (- x) / 2 ^ 53" using b64_err_pos[of "- x"] by simp
    then show ?thesis using 3 by (simp add: b64_minus)
  qed
qed

lemma b64_mono_pos:
  fixes x y :: rat
  assumes "0 < x" "x \<le> y"
  shows "b64 x \<le> b64 y"
proof -
  have y0: "0 < y" using assms by linarith
  have le: "expo x \<le> expo y" using assms by (rule expo_mono)
  show ?thesis
  proof (cases "expo x = expo y")
    case True
    then have q: "quantum y = quantum x" using assms y0 by (simp add: quantum_def)
    have "x / quantum x \<le> y / quantum x"
      using assms(2) less_imp_le[OF quantum_pos[of x]] by (rule divide_right_mono)
    then have "rhe (x / quantum x) \<le> rhe (y / quantum x)" by (rule rhe_mono)
    then have "(of_int (rhe (x / quantum x)) :: rat) \<le> of_int (rhe (y / quantum x))" by simp
    then have "of_int (rhe (x / quantum x)) * quantum x \<le> of_int (rhe (y / quantum x)) * quantum x"
      by (simp add: mult_right_mono)
    then show ?thesis using assms y0 by (simp add: b64_pos_eq q)
  next
    case False
    with le have "expo x + 1 \<le> expo y" by simp
    then have "(2::rat) powi (expo x + 1) \<le> 2 powi (expo y)" by (rule powi_mono)
    with b64_pos_bounds(2)[OF assms(1)] b64_pos_bounds(1)[OF y0] show ?thesis by linarith
  qed
qed

lemma b64_mono:
  assumes "x \<le> y"
  shows "b64 x \<le> b64 y"
proof -
  consider "0 < x" | "x \<le> 0" "0 \<le> y" | "y < 0" using assms by linarith
  then show ?thesis
  proof cases
    case 1
    then show ?thesis using assms by (rule b64_mono_pos)
  next
    case 2
    have "b64 x \<le> 0" using 2(1) b64_nonneg[of "- x"] by (simp add: b64_minus)
    moreover have "0 \<le> b64 y" using 2(2) by (rule b64_nonneg)
    ultimately show ?thesis by linarith
  next
    case 3
    then have "b64 (- y) \<le> b64 (- x)" using assms by (intro b64_mono_pos) simp_all
    then show ?thesis by (simp add: b64_minus)
  qed
qed

lemma b64_int_pos:
  assumes "0 < n" "n < 2 ^ 53"
  shows "b64 (of_int n) = of_int n"
proof -
  define x :: rat where "x = of_int n"
  have x0: "0 < x" using assms by (simp add: x_def)
  have "x < 2 ^ 53" using assms(2) unfolding x_def
    by (metis of_int_less_iff of_int_numeral of_int_power)
  then have "x < 2 powi 53" by simp
  with expo_bounds(1)[OF x0] have "(2::rat) powi (expo x) < 2 powi 53" by linarith
  then have e: "expo x < 53" by (rule powi_less_cancel)
  define k where "k = nat (52 - expo x)"
  have q: "quantum x = 1 / 2 ^ k"
    using x0 e by (simp add: quantum_def k_def power_int_def field_simps)
  have "x / quantum x = of_int (n * 2 ^ k)" unfolding q by (simp add: x_def)
  then have "rhe (x / quantum x) = n * 2 ^ k" by (simp only: rhe_of_int)
  then have "b64 x = of_int (n * 2 ^ k) * (1 / 2 ^ k)" using x0 by (simp add: b64_pos_eq q)
  then show ?thesis by (simp add: x_def)
qed

lemma b64_int:
  assumes "\<bar>n\<bar> < 2 ^ 53"
  shows "b64 (of_int n) = of_int n"
proof -
  consider "0 < n" | "n = 0" | "n < 0" by linarith
  then show ?thesis
  proof cases
    case 1
    then show ?thesis using assms by (intro b64_int_pos) simp_all
  next
    case 2
    then show ?thesis by simp
  next
    case 3
    then have "b64 (of_int (- n)) = of_int (- n)" using assms by (intro b64_int_pos) simp_all
    then show ?thesis by (simp add: b64_minus)
  qed
qed

subsection \<open>Checking a rounded value\<close>

text \<open>
  A value of \<open>b64\<close> is checked rather than computed: given the scaled significand \<open>m\<close>
  and the scale, three comparisons of rationals establish it.
\<close>

lemma rhe_eqI:
  assumes "\<bar>y - of_int m\<bar> < 1 / 2"
  shows "rhe y = m"
proof -
  have "\<bar>(of_int (rhe y) :: rat) - of_int m\<bar> < 1" using rhe_err[of y] assms by linarith
  then have "\<bar>(of_int (rhe y - m) :: rat)\<bar> < of_int 1" by simp
  then have "\<bar>rhe y - m\<bar> < 1" by (simp only: of_int_abs[symmetric] of_int_less_iff)
  then show ?thesis by simp
qed

lemma b64_eqI_div:
  assumes "2 ^ 52 \<le> x * 2 ^ k" "x * 2 ^ k < 2 ^ 53" "\<bar>x * 2 ^ k - of_int m\<bar> < 1 / 2"
  shows "b64 x = of_int m / 2 ^ k"
proof -
  have p: "(2::rat) powi (52 - int k) = 2 ^ 52 / 2 ^ k" by (simp add: power_int_diff)
  have p': "(2::rat) powi (53 - int k) = 2 ^ 53 / 2 ^ k" by (simp add: power_int_diff)
  have lo: "2 powi (52 - int k) \<le> x" using assms(1) by (simp add: p field_simps)
  have hi: "x < 2 powi (52 - int k + 1)" using assms(2) by (simp add: p' field_simps)
  have x0: "0 < x" using lo powi_pos[of "52 - int k"] by linarith
  have e: "expo x = 52 - int k" using lo hi by (rule expo_unique)
  have q: "quantum x = 1 / 2 ^ k" using x0 by (simp add: quantum_def e power_int_minus field_simps)
  have "rhe (x / quantum x) = m" using assms(3) by (intro rhe_eqI) (simp add: q)
  then show ?thesis using x0 by (simp add: b64_pos_eq q)
qed

lemma b64_eqI_mul:
  assumes "2 ^ 52 \<le> x / 2 ^ k" "x / 2 ^ k < 2 ^ 53" "\<bar>x / 2 ^ k - of_int m\<bar> < 1 / 2"
  shows "b64 x = of_int m * 2 ^ k"
proof -
  have p: "(2::rat) powi (int k + 52) = 2 ^ 52 * 2 ^ k" by (simp add: power_int_add)
  have p': "(2::rat) powi (int k + 53) = 2 ^ 53 * 2 ^ k" by (simp add: power_int_add)
  have lo: "2 powi (52 + int k) \<le> x" using assms(1) by (simp add: p field_simps)
  have hi: "x < 2 powi (52 + int k + 1)" using assms(2) by (simp add: p' field_simps)
  have x0: "0 < x" using lo powi_pos[of "52 + int k"] by linarith
  have e: "expo x = 52 + int k" using lo hi by (rule expo_unique)
  have q: "quantum x = 2 ^ k" using x0 by (simp add: quantum_def e)
  have "rhe (x / quantum x) = m" using assms(3) by (intro rhe_eqI) (simp add: q)
  then show ?thesis using x0 by (simp add: b64_pos_eq q)
qed

lemma rhe_tie: "rhe (of_int m + 1 / 2) = (if even m then m else m + 1)"
proof -
  have "\<lfloor>(of_int m :: rat) + 1 / 2\<rfloor> = m" by linarith
  then show ?thesis by (simp add: rhe_def Let_def)
qed

lemma b64_tieI_div:
  assumes "2 ^ 52 \<le> x * 2 ^ k" "x * 2 ^ k < 2 ^ 53" "x * 2 ^ k = of_int m + 1 / 2"
  shows "b64 x = of_int (if even m then m else m + 1) / 2 ^ k"
proof -
  have p: "(2::rat) powi (52 - int k) = 2 ^ 52 / 2 ^ k" by (simp add: power_int_diff)
  have p': "(2::rat) powi (53 - int k) = 2 ^ 53 / 2 ^ k" by (simp add: power_int_diff)
  have lo: "2 powi (52 - int k) \<le> x" using assms(1) by (simp add: p field_simps)
  have hi: "x < 2 powi (52 - int k + 1)" using assms(2) by (simp add: p' field_simps)
  have x0: "0 < x" using lo powi_pos[of "52 - int k"] by linarith
  have e: "expo x = 52 - int k" using lo hi by (rule expo_unique)
  have q: "quantum x = 1 / 2 ^ k" using x0 by (simp add: quantum_def e power_int_minus field_simps)
  have "x / quantum x = of_int m + 1 / 2" using assms(3) by (simp add: q)
  then have "rhe (x / quantum x) = (if even m then m else m + 1)" by (simp only: rhe_tie)
  then show ?thesis using x0 by (simp add: b64_pos_eq q)
qed

lemma b64_numeral: "numeral k < (2::int) ^ 53 \<Longrightarrow> b64 (numeral k) = numeral k"
  using b64_int[of "numeral k"] by simp

lemma b64_one [simp]: "b64 1 = 1"
  using b64_int[of 1] by simp

subsection \<open>Bounds by representable numbers\<close>

lemma b64_le_int:
  assumes "x \<le> of_int n" "\<bar>n\<bar> < 2 ^ 53"
  shows "b64 x \<le> of_int n"
  using b64_mono[OF assms(1)] b64_int[OF assms(2)] by simp

lemma b64_ge_int:
  assumes "of_int n \<le> x" "\<bar>n\<bar> < 2 ^ 53"
  shows "of_int n \<le> b64 x"
  using b64_mono[OF assms(1)] b64_int[OF assms(2)] by simp

lemma b64_le_num: "x \<le> numeral k \<Longrightarrow> numeral k < (2::int) ^ 53 \<Longrightarrow> b64 x \<le> numeral k"
  using b64_le_int[of x "numeral k"] by simp

lemma b64_ge_num: "numeral k \<le> x \<Longrightarrow> numeral k < (2::int) ^ 53 \<Longrightarrow> numeral k \<le> b64 x"
  using b64_ge_int[of "numeral k" x] by simp

lemma b64_le_1: "x \<le> 1 \<Longrightarrow> b64 x \<le> 1"
  using b64_le_int[of x 1] by simp

subsection \<open>Propagating relative errors\<close>

lemma rel_b64: "\<bar>b64 x - x\<bar> \<le> 1 / 2 ^ 53 * \<bar>x\<bar>"
  using b64_err[of x] by simp

lemma rel_abs_le:
  fixes x y e :: rat
  assumes "\<bar>x - y\<bar> \<le> e * \<bar>y\<bar>"
  shows "\<bar>x\<bar> \<le> (1 + e) * \<bar>y\<bar>"
proof -
  have "\<bar>x\<bar> \<le> \<bar>x - y\<bar> + \<bar>y\<bar>" by simp
  then show ?thesis using assms by (simp add: algebra_simps)
qed

lemma rel_trans:
  fixes x y z e1 e2 :: rat
  assumes "\<bar>x - y\<bar> \<le> e1 * \<bar>y\<bar>" "\<bar>y - z\<bar> \<le> e2 * \<bar>z\<bar>" "0 \<le> e1"
  shows "\<bar>x - z\<bar> \<le> (e1 + e2 + e1 * e2) * \<bar>z\<bar>"
proof -
  have "\<bar>y\<bar> \<le> (1 + e2) * \<bar>z\<bar>" using assms(2) by (rule rel_abs_le)
  then have "e1 * \<bar>y\<bar> \<le> e1 * ((1 + e2) * \<bar>z\<bar>)" using assms(3) by (rule mult_left_mono)
  moreover have "\<bar>x - z\<bar> \<le> \<bar>x - y\<bar> + \<bar>y - z\<bar>" by simp
  ultimately have "\<bar>x - z\<bar> \<le> e1 * ((1 + e2) * \<bar>z\<bar>) + e2 * \<bar>z\<bar>" using assms(1,2) by linarith
  then show ?thesis by (simp add: algebra_simps)
qed

lemma rel_mult:
  fixes x1 x2 y1 y2 e1 e2 :: rat
  assumes "\<bar>x1 - y1\<bar> \<le> e1 * \<bar>y1\<bar>" "\<bar>x2 - y2\<bar> \<le> e2 * \<bar>y2\<bar>" "0 \<le> e1"
  shows "\<bar>x1 * x2 - y1 * y2\<bar> \<le> (e1 + e2 + e1 * e2) * \<bar>y1 * y2\<bar>"
proof -
  have x2: "\<bar>x2\<bar> \<le> (1 + e2) * \<bar>y2\<bar>" using assms(2) by (rule rel_abs_le)
  have "x1 * x2 - y1 * y2 = (x1 - y1) * x2 + y1 * (x2 - y2)" by (simp add: algebra_simps)
  then have "\<bar>x1 * x2 - y1 * y2\<bar> \<le> \<bar>x1 - y1\<bar> * \<bar>x2\<bar> + \<bar>y1\<bar> * \<bar>x2 - y2\<bar>"
    by (metis abs_mult abs_triangle_ineq)
  also have "\<bar>x1 - y1\<bar> * \<bar>x2\<bar> \<le> (e1 * \<bar>y1\<bar>) * ((1 + e2) * \<bar>y2\<bar>)"
    using assms(1) x2 by (intro mult_mono) (simp_all add: assms(3))
  also have "\<bar>y1\<bar> * \<bar>x2 - y2\<bar> \<le> \<bar>y1\<bar> * (e2 * \<bar>y2\<bar>)"
    using assms(2) by (intro mult_left_mono) simp_all
  finally show ?thesis by (simp add: algebra_simps abs_mult)
qed

lemma rel_mult_const:
  fixes x y e c :: rat
  assumes "\<bar>x - y\<bar> \<le> e * \<bar>y\<bar>"
  shows "\<bar>x * c - y * c\<bar> \<le> e * \<bar>y * c\<bar>"
proof -
  have "\<bar>x * c - y * c\<bar> = \<bar>x - y\<bar> * \<bar>c\<bar>" by (simp add: abs_mult left_diff_distrib[symmetric])
  also have "\<dots> \<le> (e * \<bar>y\<bar>) * \<bar>c\<bar>" using assms by (intro mult_right_mono) simp_all
  finally show ?thesis by (simp add: abs_mult algebra_simps)
qed

lemma rel_div:
  fixes x1 x2 y1 y2 e1 e2 :: rat
  assumes "\<bar>x1 - y1\<bar> \<le> e1 * \<bar>y1\<bar>" "\<bar>x2 - y2\<bar> \<le> e2 * \<bar>y2\<bar>" "0 \<le> e1" "e2 < 1" "y2 \<noteq> 0"
  shows "\<bar>x1 / x2 - y1 / y2\<bar> \<le> (e1 + e2) / (1 - e2) * \<bar>y1 / y2\<bar>"
proof -
  have y2: "0 < \<bar>y2\<bar>" using assms(5) by simp
  have "\<bar>y2\<bar> \<le> \<bar>x2 - y2\<bar> + \<bar>x2\<bar>" by simp
  then have lo: "(1 - e2) * \<bar>y2\<bar> \<le> \<bar>x2\<bar>" using assms(2) by (simp add: algebra_simps)
  have pos: "0 < (1 - e2) * \<bar>y2\<bar>" using assms(4) y2 by simp
  then have x2: "0 < \<bar>x2\<bar>" using lo by linarith
  then have x2n: "x2 \<noteq> 0" by simp
  have "x1 / x2 - y1 / y2 = ((x1 - y1) * y2 - y1 * (x2 - y2)) / (x2 * y2)"
    using x2n assms(5) by (simp add: field_simps)
  then have "\<bar>x1 / x2 - y1 / y2\<bar> = \<bar>(x1 - y1) * y2 - y1 * (x2 - y2)\<bar> / (\<bar>x2\<bar> * \<bar>y2\<bar>)"
    by (simp add: abs_mult)
  also have "\<bar>(x1 - y1) * y2 - y1 * (x2 - y2)\<bar> \<le> \<bar>x1 - y1\<bar> * \<bar>y2\<bar> + \<bar>y1\<bar> * \<bar>x2 - y2\<bar>"
    by (metis abs_mult abs_triangle_ineq4)
  also have "\<dots> \<le> (e1 * \<bar>y1\<bar>) * \<bar>y2\<bar> + \<bar>y1\<bar> * (e2 * \<bar>y2\<bar>)"
    using assms(1,2) by (intro add_mono mult_right_mono mult_left_mono) simp_all
  also have "\<dots> = (e1 + e2) * \<bar>y1\<bar> * \<bar>y2\<bar>" by (simp add: algebra_simps)
  finally have num: "\<bar>x1 / x2 - y1 / y2\<bar> \<le> (e1 + e2) * \<bar>y1\<bar> * \<bar>y2\<bar> / (\<bar>x2\<bar> * \<bar>y2\<bar>)"
    using x2 y2 by (simp add: divide_right_mono)
  have e12: "0 \<le> (e1 + e2) * \<bar>y1\<bar>"
  proof -
    have "0 \<le> \<bar>x2 - y2\<bar>" by simp
    then have "0 \<le> e2 * \<bar>y2\<bar>" using assms(2) by linarith
    then have "0 \<le> e2" using y2 by (simp add: zero_le_mult_iff)
    then show ?thesis using assms(3) by simp
  qed
  have "(e1 + e2) * \<bar>y1\<bar> * \<bar>y2\<bar> / (\<bar>x2\<bar> * \<bar>y2\<bar>) = (e1 + e2) * \<bar>y1\<bar> / \<bar>x2\<bar>"
    using y2 by simp
  also have "\<dots> \<le> (e1 + e2) * \<bar>y1\<bar> / ((1 - e2) * \<bar>y2\<bar>)"
    using lo pos e12 by (intro divide_left_mono) simp_all
  also have "\<dots> = (e1 + e2) / (1 - e2) * \<bar>y1 / y2\<bar>"
    by (simp add: abs_divide)
  finally show ?thesis using num by linarith
qed

lemma rel_weaken:
  fixes x y e e' :: rat
  assumes "\<bar>x - y\<bar> \<le> e * \<bar>y\<bar>" "e \<le> e'"
  shows "\<bar>x - y\<bar> \<le> e' * \<bar>y\<bar>"
proof -
  have "e * \<bar>y\<bar> \<le> e' * \<bar>y\<bar>" using assms(2) by (intro mult_right_mono) simp_all
  then show ?thesis using assms(1) by linarith
qed

subsection \<open>Rounded values met in the examples\<close>

lemma b64_half: "b64 (1 / 2) = 1 / 2"
  using b64_eqI_div[where k = 53 and x = "1 / 2" and m = 4503599627370496] by simp

lemma b64_value_1: "b64 (7 / 10) = 3152519739159347 / 4503599627370496"
  using b64_eqI_div[where k = 53 and x = "7 / 10" and m = 6305039478318694] by simp

lemma b64_value_2: "b64 (3 / 10) = 5404319552844595 / 18014398509481984"
  using b64_eqI_div[where k = 54 and x = "3 / 10" and m = 5404319552844595] by simp

lemma b64_value_3: "b64 (4 / 5) = 3602879701896397 / 4503599627370496"
  using b64_eqI_div[where k = 53 and x = "4 / 5" and m = 7205759403792794] by simp

lemma b64_value_4: "b64 (1 / 5) = 3602879701896397 / 18014398509481984"
  using b64_eqI_div[where k = 55 and x = "1 / 5" and m = 7205759403792794] by simp

lemma b64_value_5: "b64 (17 / 20) = 7656119366529843 / 9007199254740992"
  using b64_eqI_div[where k = 53 and x = "17 / 20" and m = 7656119366529843] by simp

lemma b64_value_6: "b64 (3 / 20) = 5404319552844595 / 36028797018963968"
  using b64_eqI_div[where k = 55 and x = "3 / 20" and m = 5404319552844595] by simp

lemma b64_value_7: "b64 (51 / 50) = 2296835809958953 / 2251799813685248"
  using b64_eqI_div[where k = 52 and x = "51 / 50" and m = 4593671619917906] by simp

lemma b64_value_8: "b64 (63 / 20) = 7093169413108531 / 2251799813685248"
  using b64_eqI_div[where k = 51 and x = "63 / 20" and m = 7093169413108531] by simp

lemma b64_value_9: "b64 (53 / 20) = 5967269506265907 / 2251799813685248"
  using b64_eqI_div[where k = 51 and x = "53 / 20" and m = 5967269506265907] by simp

lemma b64_value_10: "b64 (27 / 10) = 3039929748475085 / 1125899906842624"
  using b64_eqI_div[where k = 51 and x = "27 / 10" and m = 6079859496950170] by simp

lemma b64_value_11: "b64 (2 / 5) = 3602879701896397 / 9007199254740992"
  using b64_eqI_div[where k = 54 and x = "2 / 5" and m = 7205759403792794] by simp

lemma b64_value_12: "b64 (3 / 5) = 5404319552844595 / 9007199254740992"
  using b64_eqI_div[where k = 53 and x = "3 / 5" and m = 5404319552844595] by simp

lemma b64_value_13: "b64 (19 / 40) = 4278419646001971 / 9007199254740992"
  using b64_eqI_div[where k = 54 and x = "19 / 40" and m = 8556839292003942] by simp

lemma b64_value_14: "b64 (969 / 5) = 3409365655407821 / 17592186044416"
  using b64_eqI_div[where k = 45 and x = "969 / 5" and m = 6818731310815642] by simp

lemma b64_value_15: "b64 (886646176638566375 / 281474976710656) = 3150"
  using b64_eqI_div[where k = 41 and x = "886646176638566375 / 281474976710656" and m = 6926923254988800] by simp

lemma b64_value_16: "b64 (745908688283238375 / 281474976710656) = 2650"
  using b64_eqI_div[where k = 41 and x = "745908688283238375 / 281474976710656" and m = 5827411627212800] by simp

lemma b64_value_17: "b64 (379991218559385625 / 140737488355328) = 2700"
  using b64_eqI_div[where k = 41 and x = "379991218559385625 / 140737488355328" and m = 5937362789990400] by simp

lemma b64_8_63: "b64 (8 / 63) = 285942833483841 / 2251799813685248"
  using b64_eqI_div[where k = 55 and x = "8 / 63" and m = 4575085335741456] by simp

lemma b64_value_18: "b64 (7 / 8) = 7 / 8"
  using b64_eqI_div[where k = 53 and x = "7 / 8" and m = 7881299347898368] by simp

lemma b64_value_19: "b64 (3 / 4) = 3 / 4"
  using b64_eqI_div[where k = 53 and x = "3 / 4" and m = 6755399441055744] by simp

lemma b64_value_20: "b64 (3 / 2) = 3 / 2"
  using b64_eqI_div[where k = 52 and x = "3 / 2" and m = 6755399441055744] by simp

lemma b64_value_21: "b64 (1 / 8) = 1 / 8"
  using b64_eqI_div[where k = 55 and x = "1 / 8" and m = 4503599627370496] by simp

lemma b64_value_22: "b64 (78812993478983675 / 281474976710656) = 280"
  using b64_eqI_div[where k = 44 and x = "78812993478983675 / 281474976710656" and m = 4925812092436480] by simp

lemma b64_value_23: "b64 (135107988821114875 / 1125899906842624) = 120"
  using b64_eqI_div[where k = 46 and x = "135107988821114875 / 1125899906842624" and m = 8444249301319680] by simp

lemma b64_value_24: "b64 (450359962737049625 / 562949953421312) = 800"
  using b64_eqI_div[where k = 43 and x = "450359962737049625 / 562949953421312" and m = 7036874417766400] by simp

lemma b64_value_25: "b64 (450359962737049625 / 2251799813685248) = 200"
  using b64_eqI_div[where k = 45 and x = "450359962737049625 / 2251799813685248" and m = 7036874417766400] by simp

lemma b64_value_26: "b64 (5167880572407644025 / 9007199254740992) = 2295 / 4"
  using b64_eqI_div[where k = 43 and x = "5167880572407644025 / 9007199254740992" and m = 5046758371491840] by simp

lemma b64_value_27: "b64 (3647915698170101625 / 36028797018963968) = 405 / 4"
  using b64_eqI_div[where k = 46 and x = "3647915698170101625 / 36028797018963968" and m = 7124835347988480] by simp

lemma b64_value_28: "b64 (218199401946100535 / 1125899906842624) = 3409365655407821 / 17592186044416"
  using b64_eqI_div[where k = 45 and x = "218199401946100535 / 1125899906842624" and m = 6818731310815642] by simp

lemma b64_value_29: "b64 (3409365655407821 / 7036874417766400) = 4363988038922011 / 9007199254740992"
  using b64_eqI_div[where k = 54 and x = "3409365655407821 / 7036874417766400" and m = 8727976077844022] by simp

lemma b64_value_30: "b64 (5890422369767125 / 18014398509481984) = 5890422369767125 / 18014398509481984"
  using b64_eqI_div[where k = 54 and x = "5890422369767125 / 18014398509481984" and m = 5890422369767125] by simp

lemma b64_value_31: "b64 (12123976139714859 / 18014398509481984) = 3030994034928715 / 4503599627370496"
  using b64_tieI_div[where k = 53 and x = "12123976139714859 / 18014398509481984" and m = 6061988069857429] by simp

lemma b64_value_32: "b64 (5404319552844595 / 9007199254740992) = 5404319552844595 / 9007199254740992"
  using b64_eqI_div[where k = 53 and x = "5404319552844595 / 9007199254740992" and m = 5404319552844595] by simp

lemma b64_value_33: "b64 (10920306885013726215442210339855 / 40564819207303340847894502572032) = 606198806985743 / 2251799813685248"
  using b64_eqI_div[where k = 54 and x = "10920306885013726215442210339855 / 40564819207303340847894502572032" and m = 4849590455885944] by simp

lemma b64_value_34: "b64 (3617351655660796486822115963901 / 5070602400912917605986812821504) = 1606426838512219 / 2251799813685248"
  using b64_eqI_div[where k = 53 and x = "3617351655660796486822115963901 / 5070602400912917605986812821504" and m = 6425707354048876] by simp

lemma b64_value_35: "b64 (200803354814027375 / 281474976710656) = 6275104837938355 / 8796093022208"
  using b64_eqI_div[where k = 43 and x = "200803354814027375 / 281474976710656" and m = 6275104837938355] by simp

lemma b64_value_36: "b64 (16380460327520587807666298045425 / 40564819207303340847894502572032) = 1818596420957229 / 4503599627370496"
  using b64_eqI_div[where k = 54 and x = "16380460327520587807666298045425 / 40564819207303340847894502572032" and m = 7274385683828916] by simp

lemma b64_value_37: "b64 (5528405360538198953398757139465 / 5070602400912917605986812821504) = 4910210336584519 / 4503599627370496"
  using b64_eqI_div[where k = 52 and x = "5528405360538198953398757139465 / 5070602400912917605986812821504" and m = 4910210336584519] by simp

lemma b64_value_38: "b64 (613776292073064875 / 562949953421312) = 4795127281820819 / 4398046511104"
  using b64_eqI_div[where k = 42 and x = "613776292073064875 / 562949953421312" and m = 4795127281820819] by simp

lemma b64_value_39: "b64 (1255020967587671 / 4661929301770240) = 606198806985743 / 2251799813685248"
  using b64_eqI_div[where k = 54 and x = "1255020967587671 / 4661929301770240" and m = 4849590455885944] by simp

lemma b64_value_40: "b64 (4795127281820819 / 11874725579980800) = 7274385683828917 / 18014398509481984"
  using b64_eqI_div[where k = 54 and x = "4795127281820819 / 11874725579980800" and m = 7274385683828917] by simp

lemma b64_value_41: "b64 (10740012825653069 / 18014398509481984) = 2685003206413267 / 4503599627370496"
  using b64_tieI_div[where k = 53 and x = "10740012825653069 / 18014398509481984" and m = 5370006412826534] by simp

lemma b64_value_42: "b64 (18014398509481985 / 18014398509481984) = 1"
  using b64_eqI_div[where k = 52 and x = "18014398509481985 / 18014398509481984" and m = 4503599627370496] by simp

lemma b64_value_43: "b64 (1 / 6) = 6004799503160661 / 36028797018963968"
  using b64_eqI_div[where k = 55 and x = "1 / 6" and m = 6004799503160661] by simp

lemma b64_value_44: "b64 (30023997515803305 / 9007199254740992) = 3752999689475413 / 1125899906842624"
  using b64_eqI_div[where k = 51 and x = "30023997515803305 / 9007199254740992" and m = 7505999378950826] by simp

lemma b64_value_45: "b64 (206414982921147733 / 1125899906842624) = 6450468216285867 / 35184372088832"
  using b64_eqI_div[where k = 45 and x = "206414982921147733 / 1125899906842624" and m = 6450468216285867] by simp

lemma b64_value_46: "b64 (150119987579016525 / 18014398509481984) = 2345624805922133 / 281474976710656"
  using b64_eqI_div[where k = 49 and x = "150119987579016525 / 18014398509481984" and m = 4691249611844266] by simp

lemma b64_value_47: "b64 (194686858891537067 / 281474976710656) = 6083964340360533 / 8796093022208"
  using b64_eqI_div[where k = 43 and x = "194686858891537067 / 281474976710656" and m = 6083964340360533] by simp

lemma b64_value_48: "b64 (6450468216285867 / 12314530231091200) = 4718056752483377 / 9007199254740992"
  using b64_eqI_div[where k = 53 and x = "6450468216285867 / 12314530231091200" and m = 4718056752483377] by simp

lemma b64_value_49: "b64 (551690954352885725 / 2251799813685248) = 8620171161763839 / 35184372088832"
  using b64_eqI_div[where k = 45 and x = "551690954352885725 / 2251799813685248" and m = 8620171161763839] by simp

lemma b64_value_50: "b64 (945755921747804125 / 9007199254740992) = 105"
  using b64_eqI_div[where k = 46 and x = "945755921747804125 / 9007199254740992" and m = 7388718138654720] by simp

lemma b64_value_51: "b64 (990791918021509175 / 1125899906842624) = 880"
  using b64_eqI_div[where k = 43 and x = "990791918021509175 / 1125899906842624" and m = 7740561859543040] by simp

lemma b64_value_52: "b64 (990791918021509175 / 4503599627370496) = 220"
  using b64_eqI_div[where k = 45 and x = "990791918021509175 / 4503599627370496" and m = 7740561859543040] by simp

lemma b64_value_53: "b64 (46579557211511238041371723886319 / 79228162514264337593543950336) = 5171369689306453 / 8796093022208"
  using b64_eqI_div[where k = 43 and x = "46579557211511238041371723886319 / 79228162514264337593543950336" and m = 5171369689306453] by simp

lemma b64_value_54: "b64 (32879687443419697083088020369135 / 316912650057057350374175801344) = 7300757208432639 / 70368744177664"
  using b64_eqI_div[where k = 46 and x = "32879687443419697083088020369135 / 316912650057057350374175801344" and m = 7300757208432639] by simp

lemma b64_value_55: "b64 (14815666390167432153623384017251 / 79228162514264337593543950336) = 187"
  using b64_eqI_div[where k = 45 and x = "14815666390167432153623384017251 / 79228162514264337593543950336" and m = 6579477580611584] by simp

lemma b64_value_56: "b64 (12314530231091199 / 35184372088832) = 350"
  using b64_tieI_div[where k = 44 and x = "12314530231091199 / 35184372088832" and m = 6157265115545599] by simp

lemma b64_value_57: "b64 (187 / 350) = 1203104471883261 / 2251799813685248"
  using b64_eqI_div[where k = 53 and x = "187 / 350" and m = 4812417887533044] by simp

lemma b64_value_58: "b64 (10836601702522464647811184824281 / 20282409603651670423947251286016) = 4812417887533045 / 9007199254740992"
  using b64_eqI_div[where k = 53 and x = "10836601702522464647811184824281 / 20282409603651670423947251286016" and m = 4812417887533045] by simp

lemma b64_value_59: "b64 (29 / 150) = 6965567423666367 / 36028797018963968"
  using b64_eqI_div[where k = 55 and x = "29 / 150" and m = 6965567423666367] by simp

lemma b64_value_60: "b64 (34827837118331835 / 9007199254740992) = 8706959279582959 / 2251799813685248"
  using b64_eqI_div[where k = 51 and x = "34827837118331835 / 9007199254740992" and m = 8706959279582959] by simp

lemma b64_value_61: "b64 (414030925742927599 / 2251799813685248) = 1617308303683311 / 8796093022208"
  using b64_eqI_div[where k = 45 and x = "414030925742927599 / 2251799813685248" and m = 6469233214733244] by simp

lemma b64_value_62: "b64 (174139185591659175 / 18014398509481984) = 5441849549739349 / 562949953421312"
  using b64_eqI_div[where k = 49 and x = "174139185591659175 / 18014398509481984" and m = 5441849549739349] by simp

lemma b64_value_63: "b64 (388623117845179051 / 562949953421312) = 6072236216330923 / 8796093022208"
  using b64_eqI_div[where k = 43 and x = "388623117845179051 / 562949953421312" and m = 6072236216330923] by simp

lemma b64_value_64: "b64 (1617308303683311 / 3518437208883200) = 1035077314357319 / 2251799813685248"
  using b64_eqI_div[where k = 54 and x = "1617308303683311 / 3518437208883200" and m = 8280618514858552] by simp

lemma b64_value_65: "b64 (46489765293995076898524243235089 / 79228162514264337593543950336) = 1290350195970321 / 2199023255552"
  using b64_eqI_div[where k = 43 and x = "46489765293995076898524243235089 / 79228162514264337593543950336" and m = 5161400783881284] by simp

lemma b64_value_66: "b64 (32816304913408289218238511911185 / 316912650057057350374175801344) = 7286683459597107 / 70368744177664"
  using b64_eqI_div[where k = 46 and x = "32816304913408289218238511911185 / 316912650057057350374175801344" and m = 7286683459597107] by simp

lemma b64_value_67: "b64 (3714691627643797950225621133383 / 19807040628566084398385987584) = 6598617879027909 / 35184372088832"
  using b64_eqI_div[where k = 45 and x = "3714691627643797950225621133383 / 19807040628566084398385987584" and m = 6598617879027909] by simp

lemma b64_value_68: "b64 (6598617879027909 / 14073748835532800) = 2111557721288931 / 4503599627370496"
  using b64_eqI_div[where k = 54 and x = "6598617879027909 / 14073748835532800" and m = 8446230885155724] by simp

lemma b64_value_69: "b64 (48577889730647379 / 70368744177664) = 3036118108165461 / 4398046511104"
  using b64_eqI_div[where k = 43 and x = "48577889730647379 / 70368744177664" and m = 6072236216330922] by simp

lemma b64_value_70: "b64 (18014398509481987) = 18014398509481988"
  using b64_eqI_mul[where k = 2 and x = "18014398509481987" and m = 4503599627370497] by simp

lemma b64_value_71: "b64 (18014398509481988) = 18014398509481988"
  using b64_eqI_mul[where k = 2 and x = "18014398509481988" and m = 4503599627370497] by simp

lemma b64_value_72: "b64 (90071992547410185) = 90071992547410192"
  using b64_eqI_mul[where k = 4 and x = "90071992547410185" and m = 5629499534213137] by simp

lemma b64_value_73: "b64 (95 / 45035996273705096) = 334251534843903 / 158456325028528675187087900672"
  using b64_eqI_div[where k = 101 and x = "95 / 45035996273705096" and m = 5348024557502448] by simp

lemmas b64_values = b64_half b64_value_1 b64_value_2 b64_value_3 b64_value_4 b64_value_5
  b64_value_6 b64_value_7 b64_value_8 b64_value_9 b64_value_10 b64_value_11 b64_value_12
  b64_value_13 b64_value_14 b64_value_15 b64_value_16 b64_value_17 b64_8_63 b64_value_18
  b64_value_19 b64_value_20 b64_value_21 b64_value_22 b64_value_23 b64_value_24 b64_value_25
  b64_value_26 b64_value_27 b64_value_28 b64_value_29 b64_value_30 b64_value_31 b64_value_32
  b64_value_33 b64_value_34 b64_value_35 b64_value_36 b64_value_37 b64_value_38 b64_value_39
  b64_value_40 b64_value_41 b64_value_42 b64_value_43 b64_value_44 b64_value_45 b64_value_46
  b64_value_47 b64_value_48 b64_value_49 b64_value_50 b64_value_51 b64_value_52 b64_value_53
  b64_value_54 b64_value_55 b64_value_56 b64_value_57 b64_value_58 b64_value_59 b64_value_60
  b64_value_61 b64_value_62 b64_value_63 b64_value_64 b64_value_65 b64_value_66 b64_value_67
  b64_value_68 b64_value_69 b64_value_70 b64_value_71 b64_value_72 b64_value_73

section \<open>The operations on Python numbers\<close>

lemma b64_consts:
  "b64 5 = 5" "b64 10 = 10" "b64 20 = 20" "b64 50 = 50" "b64 150 = 150"
  "b64 180 = 180" "b64 350 = 350" "b64 400 = 400" "b64 700 = 700" "b64 1000 = 1000"
  "b64 1100 = 1100"
  by (simp_all add: b64_numeral)

lemma to_float_eq_0_iff [simp]: "to_float a = 0 \<longleftrightarrow> val a = 0"
  by (cases a) simp_all

lemma py_mul_float_right: "py_mul a (PyFloat y) = PyFloat (b64 (to_float a * y))"
  by (cases a) simp_all

lemma py_add_float_right: "py_add a (PyFloat y) = PyFloat (b64 (to_float a + y))"
  by (cases a) simp_all

lemma py_sub_float_right: "py_sub a (PyFloat y) = PyFloat (b64 (to_float a - y))"
  by (cases a) simp_all

lemma py_truediv_float:
  "py_truediv (PyFloat x) b =
     (if val b = 0 then Inl ZeroDivisionError else Inr (PyFloat (b64 (x / to_float b))))"
  by (cases b) simp_all

lemma py_truediv_float_right:
  "py_truediv a (PyFloat y) =
     (if y = 0 then Inl ZeroDivisionError else Inr (PyFloat (b64 (to_float a / y))))"
  by (cases a) simp_all

subsection \<open>The empirical calculator in closed form\<close>

lemma slump_quotient:
  "py_truediv slump (PyInt 150) = Inr (PyFloat (b64 (val slump / 150)))"
  by (cases slump) (simp_all add: b64_consts)

lemma design_mix_formulas:
  "design_mix strength slump =
     (let cement = (case strength of
                      PyInt s \<Rightarrow> PyInt (350 + (s - 20) * 5)
                    | PyFloat x \<Rightarrow> PyFloat (b64 (350 + b64 (b64 (x - 20) * 5))));
          water = b64 (180 + b64 (b64 (val slump / 150) * 20));
          fine_agg = b64 (700 - b64 (b64 (val slump / 150) * 50));
          coarse_agg = (case strength of
                          PyInt s \<Rightarrow> PyInt (1100 - (s - 20) * 10)
                        | PyFloat x \<Rightarrow> PyFloat (b64 (1100 - b64 (b64 (x - 20) * 10))))
      in if val cement = 0 then Inl ZeroDivisionError
         else Inr \<lparr>Cement_kg = cement, Water_kg = PyFloat water,
                   Fine_Aggregate_kg = PyFloat fine_agg, Coarse_Aggregate_kg = coarse_agg,
                   w_c = PyFloat (b64 (water / to_float cement))\<rparr>)"
  by (cases strength)
    (simp_all add: design_mix_def slump_quotient raising_def Let_def b64_consts py_truediv_float)


lemma design_mix_cement_nonzero:
  "design_mix strength slump = Inr m \<Longrightarrow> val (Cement_kg m) \<noteq> 0"
  by (auto simp: design_mix_formulas Let_def split: if_splits)

subsection \<open>The optimizer in closed form\<close>

lemma parts_same_sign:
  assumes "0 < k1" "0 < k2" "c \<noteq> 0"
  shows "b64 (c * k1) + b64 (c * k2) \<noteq> 0"
proof (cases "0 < c")
  case True
  then have "0 < b64 (c * k1)" "0 < b64 (c * k2)" using assms by (simp_all add: b64_pos)
  then show ?thesis by simp
next
  case False
  then have "c < 0" using assms(3) by simp
  then have "c * k1 < 0" "c * k2 < 0" using assms by (simp_all add: mult_neg_pos)
  then have "b64 (c * k1) < 0" "b64 (c * k2) < 0" by (simp_all add: b64_neg)
  then show ?thesis by simp
qed

lemma optimize_mix_explicit:
  assumes "val (Cement_kg base_mix) \<noteq> 0"
  shows "optimize_mix base_mix strength slump u1 u2 =
     (let cement = b64 (to_float (Cement_kg base_mix) * b64 (7 / 10));
          scms = b64 (to_float (Cement_kg base_mix) * b64 (3 / 10));
          water = b64 (to_float (Water_kg base_mix) * b64 (102 / 100))
      in Inr \<lparr>opt_Cement_kg = PyFloat cement, SCMs_kg = PyFloat scms,
           opt_Water_kg = PyFloat water,
           opt_Fine_Aggregate_kg =
             PyFloat (b64 (to_float (Fine_Aggregate_kg base_mix) * b64 (85 / 100))),
           Fine_Recycled_Agg_kg =
             PyFloat (b64 (to_float (Fine_Aggregate_kg base_mix) * b64 (15 / 100))),
           opt_Coarse_Aggregate_kg =
             PyFloat (b64 (to_float (Coarse_Aggregate_kg base_mix) * b64 (8 / 10))),
           Coarse_Recycled_Agg_kg =
             PyFloat (b64 (to_float (Coarse_Aggregate_kg base_mix) * b64 (2 / 10))),
           opt_w_c = PyFloat (b64 (water / b64 (cement + scms))),
           New_Strength_MPa = py_sub strength (PyFloat u1),
           New_Slump_mm = py_add slump (PyFloat u2),
           CO2_Reduction_pct = PyInt 25, Cost_Reduction_pct = PyInt 15\<rparr>)"
proof -
  have c: "to_float (Cement_kg base_mix) \<noteq> 0" using assms by simp
  have "0 < b64 (7 / 10)" "0 < b64 (3 / 10)" by (simp_all add: b64_pos)
  from parts_same_sign[OF this c]
  have "b64 (to_float (Cement_kg base_mix) * b64 (7 / 10)) +
        b64 (to_float (Cement_kg base_mix) * b64 (3 / 10)) \<noteq> 0" .
  then show ?thesis
    by (simp add: optimize_mix_def Let_def raising_def lit_def py_mul_float_right
        py_truediv_float_right del: to_float_eq_0_iff)
qed

subsection \<open>The volumetric calculator in closed form\<close>

lemma SG_values:
  "py_mul SG_cement (PyInt 1000) = PyFloat 3150"
  "py_mul SG_fine (PyInt 1000) = PyFloat 2650"
  "py_mul SG_coarse (PyInt 1000) = PyFloat 2700"
  "py_mul SG_water (PyInt 1000) = PyFloat 1000"
  by (simp_all add: SG_cement_def SG_fine_def SG_coarse_def SG_water_def lit_def b64_consts
      b64_values)

lemma volumetric_mix_float:
  "volumetric_mix fc (PyFloat w) (PyFloat f) =
     (let water = b64 (400 * w);
          vc = 285942833483841 / 2251799813685248;
          vw = b64 (water / 1000);
          va = b64 (1 - b64 (vc + vw));
          cr = b64 (1 - f)
      in Inr \<lparr>v_cement_content = PyInt 400, v_water_content = PyFloat water,
           v_volume_cement = PyFloat vc, v_volume_water = PyFloat vw,
           v_volume_aggregates = PyFloat va,
           v_fine_agg_mass = PyFloat (b64 (b64 (b64 (va * f) * b64 (265 / 100)) * 1000)),
           v_coarse_agg_mass = PyFloat (b64 (b64 (b64 (va * cr) * b64 (270 / 100)) * 1000))\<rparr>)"
  by (simp add: volumetric_mix_def Let_def raising_def SG_values py_truediv_float_right
      py_mul_float_right py_sub_float_right b64_consts b64_8_63
      SG_fine_def SG_coarse_def lit_def)

lemma volumetric_mix_returns:
  "\<exists>r. volumetric_mix fc w_c_ratio fine_ratio = Inr r \<and> v_cement_content r = PyInt 400 \<and>
       v_water_content r = py_mul (PyInt 400) w_c_ratio"
  by (simp add: volumetric_mix_def Let_def raising_def SG_values py_truediv_float_right)

section \<open>The volumetric calculator: the volume balance\<close>

lemma recovered_volume:
  fixes v g k K d :: rat
  assumes "\<bar>k - K\<bar> \<le> 1 / 2 ^ 53 * \<bar>K\<bar>" "K * 1000 = d" "d \<noteq> 0"
  shows "\<bar>b64 (b64 (b64 (b64 (v * g) * k) * 1000) / d) - v * g\<bar> \<le> 6 / 2 ^ 53 * \<bar>v * g\<bar>"
proof -
  define u :: rat where "u = 1 / 2 ^ 53"
  define a1 where "a1 = b64 (v * g)"
  define a2 where "a2 = b64 (a1 * k)"
  define m where "m = b64 (a2 * 1000)"
  have u0: "0 \<le> u" by (simp add: u_def)
  have 1: "\<bar>a1 - v * g\<bar> \<le> u * \<bar>v * g\<bar>" unfolding a1_def u_def by (rule rel_b64)
  have k: "\<bar>k - K\<bar> \<le> u * \<bar>K\<bar>" using assms(1) by (simp add: u_def)
  from rel_mult[OF 1 k u0]
  have "\<bar>a1 * k - v * g * K\<bar> \<le> (u + u + u * u) * \<bar>v * g * K\<bar>" .
  then have 2: "\<bar>a1 * k - v * g * K\<bar> \<le> (21 / 10 * u) * \<bar>v * g * K\<bar>"
    by (rule rel_weaken) (simp add: u_def)
  have "\<bar>a2 - a1 * k\<bar> \<le> u * \<bar>a1 * k\<bar>" unfolding a2_def u_def by (rule rel_b64)
  from rel_trans[OF this 2 u0]
  have "\<bar>a2 - v * g * K\<bar> \<le> (u + 21 / 10 * u + u * (21 / 10 * u)) * \<bar>v * g * K\<bar>" .
  then have "\<bar>a2 - v * g * K\<bar> \<le> (32 / 10 * u) * \<bar>v * g * K\<bar>"
    by (rule rel_weaken) (simp add: u_def)
  then have 3: "\<bar>a2 * 1000 - v * g * K * 1000\<bar> \<le> (32 / 10 * u) * \<bar>v * g * K * 1000\<bar>"
    by (rule rel_mult_const)
  have "\<bar>m - a2 * 1000\<bar> \<le> u * \<bar>a2 * 1000\<bar>" unfolding m_def u_def by (rule rel_b64)
  from rel_trans[OF this 3 u0]
  have "\<bar>m - v * g * K * 1000\<bar> \<le> (u + 32 / 10 * u + u * (32 / 10 * u)) * \<bar>v * g * K * 1000\<bar>" .
  then have 4: "\<bar>m - v * g * K * 1000\<bar> \<le> (43 / 10 * u) * \<bar>v * g * K * 1000\<bar>"
    by (rule rel_weaken) (simp add: u_def)
  have d: "\<bar>d - d\<bar> \<le> 0 * \<bar>d\<bar>" by simp
  have "\<bar>m / d - v * g * K * 1000 / d\<bar> \<le> (43 / 10 * u + 0) / (1 - 0) * \<bar>v * g * K * 1000 / d\<bar>"
    using 4 d by (rule rel_div) (simp_all add: u_def assms(3))
  moreover have "v * g * K * 1000 / d = v * g"
    using assms(2,3) by (simp add: field_simps)
  ultimately have 5: "\<bar>m / d - v * g\<bar> \<le> (43 / 10 * u) * \<bar>v * g\<bar>" by simp
  have "\<bar>b64 (m / d) - m / d\<bar> \<le> u * \<bar>m / d\<bar>" unfolding u_def by (rule rel_b64)
  from rel_trans[OF this 5 u0]
  have "\<bar>b64 (m / d) - v * g\<bar> \<le> (u + 43 / 10 * u + u * (43 / 10 * u)) * \<bar>v * g\<bar>" .
  then have "\<bar>b64 (m / d) - v * g\<bar> \<le> (6 * u) * \<bar>v * g\<bar>"
    by (rule rel_weaken) (simp add: u_def)
  then show ?thesis unfolding m_def a2_def a1_def u_def by simp
qed

lemma volume_balance_float:
  "volume_balance \<lparr>v_cement_content = cc, v_water_content = wc, v_volume_cement = PyFloat vc,
       v_volume_water = PyFloat vw, v_volume_aggregates = va,
       v_fine_agg_mass = PyFloat fm, v_coarse_agg_mass = PyFloat cm\<rparr> =
     Inr (PyFloat (b64 (b64 (b64 (vc + vw) + b64 (fm / 2650)) + b64 (cm / 2700))))"
  by (simp add: volume_balance_def raising_def SG_values py_truediv_float_right)

lemma abs_err_le:
  fixes x y e b :: rat
  assumes "\<bar>x - y\<bar> \<le> e * \<bar>y\<bar>" "\<bar>y\<bar> \<le> b" "0 \<le> e"
  shows "\<bar>x - y\<bar> \<le> e * b"
proof -
  have "e * \<bar>y\<bar> \<le> e * b" using assms(2,3) by (rule mult_left_mono)
  then show ?thesis using assms(1) by linarith
qed

text \<open>
  Claim C1. For every water-cement ratio from \<^verbatim>\<open>0.3\<close> to \<^verbatim>\<open>0.7\<close> and every fine
  aggregate fraction from \<^verbatim>\<open>0.3\<close> to \<^verbatim>\<open>0.6\<close>, the volumes of the mix that the
  absolute-volume method computes balance: cement volume + water volume + fine volume +
  coarse volume is 1 cubic metre within floating-point tolerance, where each aggregate
  volume is recovered from its mass as mass / (specific gravity * 1000). The sum, computed
  in \<^verbatim>\<open>float\<close> arithmetic, differs from 1 by at most \<open>1 / 2 ^ 49\<close> (about \<open>1.8e-15\<close>); the
  whole difference is rounding, since in exact arithmetic the four volumes add up to 1.
\<close>

theorem volume_balance_is_one:
  assumes "b64 (3 / 10) \<le> w" "w \<le> 7 / 10" "b64 (3 / 10) \<le> f" "f \<le> 6 / 10"
  shows "\<exists>r t. volumetric_mix fc (PyFloat w) (PyFloat f) = Inr r \<and>
           volume_balance r = Inr (PyFloat t) \<and> \<bar>t - 1\<bar> \<le> 1 / 2 ^ 49"
proof -
  define u :: rat where "u = 1 / 2 ^ 53"
  define c0 :: rat where "c0 = 285942833483841 / 2251799813685248"
  define water where "water = b64 (400 * w)"
  define vw where "vw = b64 (water / 1000)"
  define s where "s = b64 (c0 + vw)"
  define va where "va = b64 (1 - s)"
  define cr where "cr = b64 (1 - f)"
  define fm where "fm = b64 (b64 (b64 (va * f) * b64 (53 / 20)) * 1000)"
  define cm where "cm = b64 (b64 (b64 (va * cr) * b64 (27 / 10)) * 1000)"
  define fv where "fv = b64 (fm / 2650)"
  define cv where "cv = b64 (cm / 2700)"
  define s1 where "s1 = b64 (s + fv)"
  define t where "t = b64 (s1 + cv)"
  have u0: "0 \<le> u" by (simp add: u_def)
  have lit: "1 / 4 \<le> b64 (3 / 10)" by (simp add: b64_values)
  have w0: "0 \<le> w" and f0: "0 \<le> f" and f1: "1 / 4 \<le> f" using assms lit by linarith+
  \<comment> \<open>the ranges of the intermediate values\<close>
  have water0: "0 \<le> water" unfolding water_def using w0 by (intro b64_nonneg) simp
  have "water \<le> 280" unfolding water_def using assms(2) by (intro b64_le_num) simp_all
  then have "water / 1000 \<le> 1 / 2" by simp
  then have vw1: "vw \<le> 1 / 2" unfolding vw_def
    using b64_mono[of "water / 1000" "1 / 2"] by (simp add: b64_half)
  have vw0: "0 \<le> vw" unfolding vw_def using water0 by (intro b64_nonneg) simp
  have c0: "1 / 8 \<le> c0" "c0 \<le> 1 / 4" by (simp_all add: c0_def)
  have s_lo: "1 / 8 \<le> s" unfolding s_def
    using b64_mono[of "1 / 8" "c0 + vw"] c0 vw0 by (simp add: b64_values)
  have s_hi: "s \<le> 3 / 4" unfolding s_def
    using b64_mono[of "c0 + vw" "3 / 4"] c0 vw1 by (simp add: b64_values)
  have va0: "0 \<le> va" unfolding va_def using s_hi by (intro b64_nonneg) simp
  have va1: "va \<le> 7 / 8" unfolding va_def
    using b64_mono[of "1 - s" "7 / 8"] s_lo by (simp add: b64_values)
  have cr0: "0 \<le> cr" unfolding cr_def using assms(4) by (intro b64_nonneg) simp
  have cr1: "cr \<le> 3 / 4" unfolding cr_def
    using b64_mono[of "1 - f" "3 / 4"] f1 by (simp add: b64_values)
  have A0: "0 \<le> va * f" using va0 f0 by simp
  have "va * f \<le> 7 / 8 * (6 / 10)" using va1 assms(4) va0 f0 by (intro mult_mono) simp_all
  then have A1: "\<bar>va * f\<bar> \<le> 21 / 40" using A0 by simp
  have B0: "0 \<le> va * cr" using va0 cr0 by simp
  have "va * cr \<le> 7 / 8 * (3 / 4)" using va1 cr1 va0 cr0 by (intro mult_mono) simp_all
  then have B1: "\<bar>va * cr\<bar> \<le> 21 / 32" using B0 by simp
  \<comment> \<open>the rounding errors\<close>
  have "\<bar>va - (1 - s)\<bar> \<le> u * \<bar>1 - s\<bar>" unfolding va_def u_def by (rule rel_b64)
  moreover have "\<bar>1 - s\<bar> \<le> 7 / 8" using s_lo s_hi by simp
  ultimately have ea: "\<bar>va - (1 - s)\<bar> \<le> u * (7 / 8)" using u0 by (rule abs_err_le)
  have "\<bar>cr - (1 - f)\<bar> \<le> u * \<bar>1 - f\<bar>" unfolding cr_def u_def by (rule rel_b64)
  moreover have "\<bar>1 - f\<bar> \<le> 3 / 4" using f1 assms(4) by simp
  ultimately have "\<bar>cr - (1 - f)\<bar> \<le> u * (3 / 4)" using u0 by (rule abs_err_le)
  then have "va * \<bar>cr - (1 - f)\<bar> \<le> 7 / 8 * (u * (3 / 4))"
    using va0 va1 by (intro mult_mono) simp_all
  then have er: "\<bar>va * (cr - (1 - f))\<bar> \<le> u * (21 / 32)"
    using va0 by (simp add: abs_mult)
  have "\<bar>b64 (53 / 20) - 53 / 20\<bar> \<le> 1 / 2 ^ 53 * \<bar>53 / 20\<bar>" by (rule rel_b64)
  then have "\<bar>fv - va * f\<bar> \<le> 6 / 2 ^ 53 * \<bar>va * f\<bar>"
    unfolding fv_def fm_def by (rule recovered_volume) simp_all
  then have "\<bar>fv - va * f\<bar> \<le> 6 * u * \<bar>va * f\<bar>" by (simp add: u_def)
  then have ef: "\<bar>fv - va * f\<bar> \<le> 6 * u * (21 / 40)" using A1 by (rule abs_err_le) (simp add: u0)
  have "\<bar>b64 (27 / 10) - 27 / 10\<bar> \<le> 1 / 2 ^ 53 * \<bar>27 / 10\<bar>" by (rule rel_b64)
  then have "\<bar>cv - va * cr\<bar> \<le> 6 / 2 ^ 53 * \<bar>va * cr\<bar>"
    unfolding cv_def cm_def by (rule recovered_volume) simp_all
  then have "\<bar>cv - va * cr\<bar> \<le> 6 * u * \<bar>va * cr\<bar>" by (simp add: u_def)
  then have ec: "\<bar>cv - va * cr\<bar> \<le> 6 * u * (21 / 32)" using B1 by (rule abs_err_le) (simp add: u0)
  have usmall: "u \<le> 1 / 1000" by (simp add: u_def)
  have fv0: "0 \<le> fv"
  proof -
    have "0 \<le> b64 (va * f)" using A0 by (rule b64_nonneg)
    then have "0 \<le> b64 (va * f) * b64 (53 / 20)" by (simp add: b64_nonneg)
    then have "0 \<le> b64 (b64 (va * f) * b64 (53 / 20))" by (rule b64_nonneg)
    then have "0 \<le> fm" unfolding fm_def by (intro b64_nonneg) simp
    then show ?thesis unfolding fv_def by (intro b64_nonneg) simp
  qed
  have fv1: "fv \<le> 3 / 4" using ef A0 A1 usmall by linarith
  have cv0: "0 \<le> cv"
  proof -
    have "0 \<le> b64 (va * cr)" using B0 by (rule b64_nonneg)
    then have "0 \<le> b64 (va * cr) * b64 (27 / 10)" by (simp add: b64_nonneg)
    then have "0 \<le> b64 (b64 (va * cr) * b64 (27 / 10))" by (rule b64_nonneg)
    then have "0 \<le> cm" unfolding cm_def by (intro b64_nonneg) simp
    then show ?thesis unfolding cv_def by (intro b64_nonneg) simp
  qed
  have cv1: "cv \<le> 1" using ec B0 B1 usmall by linarith
  have "\<bar>s1 - (s + fv)\<bar> \<le> u * \<bar>s + fv\<bar>" unfolding s1_def u_def by (rule rel_b64)
  moreover have "\<bar>s + fv\<bar> \<le> 3 / 2" using s_lo s_hi fv0 fv1 by simp
  ultimately have e1: "\<bar>s1 - (s + fv)\<bar> \<le> u * (3 / 2)" using u0 by (rule abs_err_le)
  have s1_0: "0 \<le> s1" unfolding s1_def using s_lo fv0 by (intro b64_nonneg) simp
  have s1_1: "s1 \<le> 2" using e1 s_hi fv1 usmall by linarith
  have "\<bar>t - (s1 + cv)\<bar> \<le> u * \<bar>s1 + cv\<bar>" unfolding t_def u_def by (rule rel_b64)
  moreover have "\<bar>s1 + cv\<bar> \<le> 3" using s1_0 s1_1 cv0 cv1 by simp
  ultimately have e2: "\<bar>t - (s1 + cv)\<bar> \<le> u * 3" using u0 by (rule abs_err_le)
  \<comment> \<open>in exact arithmetic the volumes add up to 1\<close>
  have "t - 1 = (t - (s1 + cv)) + (s1 - (s + fv)) + (fv - va * f) + (cv - va * cr)
      + va * (cr - (1 - f)) + (va - (1 - s))"
    by (simp add: algebra_simps)
  then have "\<bar>t - 1\<bar> \<le> \<bar>t - (s1 + cv)\<bar> + \<bar>s1 - (s + fv)\<bar> + \<bar>fv - va * f\<bar> + \<bar>cv - va * cr\<bar>
      + \<bar>va * (cr - (1 - f))\<bar> + \<bar>va - (1 - s)\<bar>"
    by linarith
  then have "\<bar>t - 1\<bar> \<le> u * 3 + u * (3 / 2) + 6 * u * (21 / 40) + 6 * u * (21 / 32)
      + u * (21 / 32) + u * (7 / 8)"
    using e2 e1 ef ec er ea by linarith
  also have "\<dots> \<le> 1 / 2 ^ 49" by (simp add: u_def)
  finally have bound: "\<bar>t - 1\<bar> \<le> 1 / 2 ^ 49" .
  have "volumetric_mix fc (PyFloat w) (PyFloat f) =
      Inr \<lparr>v_cement_content = PyInt 400, v_water_content = PyFloat water,
           v_volume_cement = PyFloat c0, v_volume_water = PyFloat vw,
           v_volume_aggregates = PyFloat va,
           v_fine_agg_mass = PyFloat fm, v_coarse_agg_mass = PyFloat cm\<rparr>"
    by (simp add: volumetric_mix_float Let_def water_def vw_def va_def cr_def fm_def cm_def
        s_def c0_def)
  moreover have "volume_balance \<lparr>v_cement_content = PyInt 400, v_water_content = PyFloat water,
           v_volume_cement = PyFloat c0, v_volume_water = PyFloat vw,
           v_volume_aggregates = PyFloat va,
           v_fine_agg_mass = PyFloat fm, v_coarse_agg_mass = PyFloat cm\<rparr> = Inr (PyFloat t)"
    by (simp add: volume_balance_float t_def s1_def fv_def cv_def s_def)
  ultimately show ?thesis using bound by blast
qed

text \<open>
  At the widgets' default values \<^verbatim>\<open>0.5\<close> and \<^verbatim>\<open>0.4\<close>: water 200.0, fine aggregate
  713.3968253968254, coarse aggregate 1090.2857142857144, and the balance is exactly 1.0.
\<close>

theorem volume_balance_is_one_witness:
  "b64 (3 / 10) \<le> 1 / 2 \<and> (1 / 2 :: rat) \<le> 7 / 10 \<and> b64 (3 / 10) \<le> b64 (4 / 10) \<and>
   b64 (4 / 10) \<le> 6 / 10 \<and>
   (\<exists>r t. volumetric_mix (PyInt 30) (PyFloat (1 / 2)) (PyFloat (b64 (4 / 10))) = Inr r \<and>
          volume_balance r = Inr (PyFloat t) \<and> \<bar>t - 1\<bar> \<le> 1 / 2 ^ 49) \<and>
   volumetric_mix (PyInt 30) (PyFloat (1 / 2)) (PyFloat (b64 (4 / 10))) =
     Inr \<lparr>v_cement_content = PyInt 400, v_water_content = PyFloat 200,
          v_volume_cement = PyFloat (285942833483841 / 2251799813685248),
          v_volume_water = PyFloat (3602879701896397 / 18014398509481984),
          v_volume_aggregates = PyFloat (3030994034928715 / 4503599627370496),
          v_fine_agg_mass = PyFloat (6275104837938355 / 8796093022208),
          v_coarse_agg_mass = PyFloat (4795127281820819 / 4398046511104)\<rparr> \<and>
   volume_balance
     \<lparr>v_cement_content = PyInt 400, v_water_content = PyFloat 200,
      v_volume_cement = PyFloat (285942833483841 / 2251799813685248),
      v_volume_water = PyFloat (3602879701896397 / 18014398509481984),
      v_volume_aggregates = PyFloat (3030994034928715 / 4503599627370496),
      v_fine_agg_mass = PyFloat (6275104837938355 / 8796093022208),
      v_coarse_agg_mass = PyFloat (4795127281820819 / 4398046511104)\<rparr> = Inr (PyFloat 1)"
proof -
  have h1: "b64 (3 / 10) \<le> 1 / 2" by (simp add: b64_values)
  have h2: "(1 / 2 :: rat) \<le> 7 / 10" by simp
  have h3: "b64 (3 / 10) \<le> b64 (4 / 10)" by (simp add: b64_values)
  have h4: "b64 (4 / 10) \<le> 6 / 10" by (simp add: b64_values)
  note general = volume_balance_is_one[OF h1 h2 h3 h4, of "PyInt 30"]
  have run: "volumetric_mix (PyInt 30) (PyFloat (1 / 2)) (PyFloat (b64 (4 / 10))) =
     Inr \<lparr>v_cement_content = PyInt 400, v_water_content = PyFloat 200,
          v_volume_cement = PyFloat (285942833483841 / 2251799813685248),
          v_volume_water = PyFloat (3602879701896397 / 18014398509481984),
          v_volume_aggregates = PyFloat (3030994034928715 / 4503599627370496),
          v_fine_agg_mass = PyFloat (6275104837938355 / 8796093022208),
          v_coarse_agg_mass = PyFloat (4795127281820819 / 4398046511104)\<rparr>"
    by (simp add: volumetric_mix_float Let_def b64_consts b64_numeral b64_values)
  have balance: "volume_balance
     \<lparr>v_cement_content = PyInt 400, v_water_content = PyFloat 200,
      v_volume_cement = PyFloat (285942833483841 / 2251799813685248),
      v_volume_water = PyFloat (3602879701896397 / 18014398509481984),
      v_volume_aggregates = PyFloat (3030994034928715 / 4503599627370496),
      v_fine_agg_mass = PyFloat (6275104837938355 / 8796093022208),
      v_coarse_agg_mass = PyFloat (4795127281820819 / 4398046511104)\<rparr> = Inr (PyFloat 1)"
    by (simp add: volume_balance_float b64_consts b64_numeral b64_values)
  from h1 h2 h3 h4 general run balance show ?thesis by (intro conjI)
qed

section \<open>The volumetric calculator: no negative mass\<close>

lemma lit_bounds:
  "0 < b64 (3 / 10)" "0 < b64 (53 / 20)" "0 < b64 (27 / 10)"
  by (simp_all add: b64_pos)

text \<open>
  Claim C2. For every water-cement ratio from \<^verbatim>\<open>0.3\<close> to \<^verbatim>\<open>0.7\<close> and every fine
  aggregate fraction from \<^verbatim>\<open>0.3\<close> to \<^verbatim>\<open>0.6\<close> the calculator returns, and the four masses
  (cement, water, fine aggregate, coarse aggregate) are not negative. The lower bounds are
  the \<^verbatim>\<open>float\<close> literal \<^verbatim>\<open>0.3\<close>, which lies just below three tenths, so the range covers
  both the widget's bounds and the interval of the claim.
\<close>

theorem volumetric_masses_nonneg:
  assumes "b64 (3 / 10) \<le> w" "w \<le> 7 / 10" "b64 (3 / 10) \<le> f" "f \<le> 6 / 10"
  shows "\<exists>r. volumetric_mix fc (PyFloat w) (PyFloat f) = Inr r \<and>
           0 \<le> val (v_cement_content r) \<and> 0 \<le> val (v_water_content r) \<and>
           0 \<le> val (v_fine_agg_mass r) \<and> 0 \<le> val (v_coarse_agg_mass r)"
proof -
  define water where "water = b64 (400 * w)"
  define vw where "vw = b64 (water / 1000)"
  define va where "va = b64 (1 - b64 (285942833483841 / 2251799813685248 + vw))"
  define cr where "cr = b64 (1 - f)"
  have w0: "0 \<le> w" and f0: "0 \<le> f" using assms lit_bounds(1) by linarith+
  have water0: "0 \<le> water" unfolding water_def using w0 by (intro b64_nonneg) simp
  have "water \<le> 280" unfolding water_def using assms(2) by (intro b64_le_num) simp_all
  then have "water / 1000 \<le> 1 / 2" by simp
  then have "vw \<le> 1 / 2" unfolding vw_def
    using b64_mono[of "water / 1000" "1 / 2"] by (simp add: b64_half)
  then have "b64 (285942833483841 / 2251799813685248 + vw) \<le> 1"
    by (intro b64_le_1) simp
  then have va0: "0 \<le> va" unfolding va_def by (intro b64_nonneg) simp
  have cr0: "0 \<le> cr" unfolding cr_def using assms(4) by (intro b64_nonneg) simp
  have fine0: "0 \<le> b64 (b64 (b64 (va * f) * b64 (53 / 20)) * 1000)"
    using va0 f0 lit_bounds(2) by (intro b64_nonneg mult_nonneg_nonneg) simp_all
  have coarse0: "0 \<le> b64 (b64 (b64 (va * cr) * b64 (27 / 10)) * 1000)"
    using va0 cr0 lit_bounds(3) by (intro b64_nonneg mult_nonneg_nonneg) simp_all
  show ?thesis
    using water0 fine0 coarse0
    by (simp add: volumetric_mix_float Let_def water_def vw_def va_def cr_def)
qed

text \<open>The hypotheses hold at the widgets' default values, \<^verbatim>\<open>0.5\<close> and \<^verbatim>\<open>0.4\<close>.\<close>

theorem volumetric_masses_nonneg_witness:
  "b64 (3 / 10) \<le> 1 / 2 \<and> (1 / 2 :: rat) \<le> 7 / 10 \<and> b64 (3 / 10) \<le> b64 (4 / 10) \<and>
   b64 (4 / 10) \<le> 6 / 10 \<and>
   (\<exists>r. volumetric_mix (PyInt 30) (PyFloat (1 / 2)) (PyFloat (b64 (4 / 10))) = Inr r \<and>
        0 \<le> val (v_cement_content r) \<and> 0 \<le> val (v_water_content r) \<and>
        0 \<le> val (v_fine_agg_mass r) \<and> 0 \<le> val (v_coarse_agg_mass r))"
proof -
  have h1: "b64 (3 / 10) \<le> 1 / 2" by (simp add: b64_values)
  have h2: "(1 / 2 :: rat) \<le> 7 / 10" by simp
  have h3: "b64 (3 / 10) \<le> b64 (4 / 10)" by (simp add: b64_values)
  have h4: "b64 (4 / 10) \<le> 6 / 10" by (simp add: b64_values)
  from volumetric_masses_nonneg[OF h1 h2 h3 h4, of "PyInt 30"] h1 h2 h3 h4
  show ?thesis by blast
qed

section \<open>The volumetric calculator: cement and water\<close>

lemma half_value: "lit (1 / 2) = PyFloat (1 / 2)"
  by (simp add: lit_def b64_half)

text \<open>
  Claim C8. The volumetric calculator never raises; its cement content is the constant 400
  and its water content is the product \<^verbatim>\<open>cement_content * w_c_ratio\<close>: \<open>400 * n\<close> for an
  \<^verbatim>\<open>int\<close> ratio \<open>n\<close>, the rounded product \<open>b64 (400 * x)\<close> for a \<^verbatim>\<open>float\<close> ratio \<open>x\<close>.
  For the ratio \<^verbatim>\<open>0.5\<close> the water content is exactly \<^verbatim>\<open>200.0\<close>.
\<close>

theorem volumetric_cement_and_water:
  "\<exists>r. volumetric_mix fc w_c_ratio fine_ratio = Inr r \<and> v_cement_content r = PyInt 400 \<and>
       v_water_content r = py_mul (PyInt 400) w_c_ratio \<and>
       val (v_water_content r) =
         (case w_c_ratio of PyInt n \<Rightarrow> 400 * of_int n | PyFloat x \<Rightarrow> b64 (400 * x)) \<and>
       (w_c_ratio = lit (1 / 2) \<longrightarrow> v_water_content r = PyFloat 200)"
proof -
  obtain r where r: "volumetric_mix fc w_c_ratio fine_ratio = Inr r"
    "v_cement_content r = PyInt 400" "v_water_content r = py_mul (PyInt 400) w_c_ratio"
    using volumetric_mix_returns by blast
  have "val (py_mul (PyInt 400) w_c_ratio) =
      (case w_c_ratio of PyInt n \<Rightarrow> 400 * of_int n | PyFloat x \<Rightarrow> b64 (400 * x))"
    by (cases w_c_ratio) (simp_all add: b64_consts)
  moreover have "py_mul (PyInt 400) (lit (1 / 2)) = PyFloat 200"
    by (simp add: half_value b64_consts b64_numeral)
  ultimately show ?thesis using r by auto
qed

theorem volumetric_cement_and_water_witness:
  "lit (1 / 2) = lit (1 / 2) \<and>
   (\<exists>r. volumetric_mix (PyInt 30) (lit (1 / 2)) (lit (4 / 10)) = Inr r \<and>
        v_cement_content r = PyInt 400 \<and> v_water_content r = PyFloat 200)"
  using volumetric_cement_and_water[of "PyInt 30" "lit (1 / 2)" "lit (4 / 10)"] by auto

section \<open>The empirical calculator: the formulas and the zero divisor\<close>




section \<open>The empirical calculator: no negative mass on the selectable ranges\<close>

lemma cement_pos:
  assumes "20 \<le> val strength"
  shows "0 < val (case strength of
                    PyInt s \<Rightarrow> PyInt (350 + (s - 20) * 5)
                  | PyFloat x \<Rightarrow> PyFloat (b64 (350 + b64 (b64 (x - 20) * 5))))"
proof (cases strength)
  case (PyInt s)
  then have "20 \<le> s" using assms by simp
  then show ?thesis using PyInt by simp
next
  case (PyFloat x)
  then have "0 \<le> x - 20" using assms by simp
  then have "0 \<le> b64 (x - 20)" by (rule b64_nonneg)
  then have "0 \<le> b64 (b64 (x - 20) * 5)" by (intro b64_nonneg) simp
  then have "0 < 350 + b64 (b64 (x - 20) * 5)" by simp
  then have "0 < b64 (350 + b64 (b64 (x - 20) * 5))" by (rule b64_pos)
  then show ?thesis using PyFloat by simp
qed

lemma coarse_nonneg:
  assumes "20 \<le> val strength" "val strength \<le> 60"
  shows "0 \<le> val (case strength of
                    PyInt s \<Rightarrow> PyInt (1100 - (s - 20) * 10)
                  | PyFloat x \<Rightarrow> PyFloat (b64 (1100 - b64 (b64 (x - 20) * 10))))"
proof (cases strength)
  case (PyInt s)
  then have "s \<le> 60" using assms by simp
  then show ?thesis using PyInt by simp
next
  case (PyFloat x)
  then have "x - 20 \<le> 40" using assms by simp
  then have "b64 (x - 20) \<le> 40" by (intro b64_le_num) simp_all
  then have "b64 (b64 (x - 20) * 10) \<le> 400" by (intro b64_le_num) simp_all
  then have "0 \<le> 1100 - b64 (b64 (x - 20) * 10)" by simp
  then have "0 \<le> b64 (1100 - b64 (b64 (x - 20) * 10))" by (rule b64_nonneg)
  then show ?thesis using PyFloat by simp
qed

lemma water_nonneg:
  assumes "0 \<le> v"
  shows "0 \<le> b64 (180 + b64 (b64 (v / 150) * 20))"
proof -
  have "0 \<le> b64 (v / 150)" using assms by (intro b64_nonneg) simp
  then have "0 \<le> b64 (b64 (v / 150) * 20)" by (intro b64_nonneg) simp
  then show ?thesis by (intro b64_nonneg) simp
qed

lemma fine_nonneg:
  assumes "v \<le> 150"
  shows "0 \<le> b64 (700 - b64 (b64 (v / 150) * 50))"
proof -
  have "v / 150 \<le> 1" using assms by simp
  then have "b64 (v / 150) \<le> 1" by (rule b64_le_1)
  then have "b64 (b64 (v / 150) * 50) \<le> 50" by (intro b64_le_num) simp_all
  then show ?thesis by (intro b64_nonneg) simp
qed

text \<open>
  Claim C7. For every strength from 20 to 60 and every slump from 25 to 150, given as
  \<^verbatim>\<open>int\<close> or as \<^verbatim>\<open>float\<close>, the empirical calculator returns a mix, and its cement,
  water, fine aggregate and coarse aggregate are not negative. The boundary points are
  included.
\<close>

theorem design_mix_masses_nonneg:
  assumes "20 \<le> val strength" "val strength \<le> 60" "25 \<le> val slump" "val slump \<le> 150"
  shows "\<exists>m. design_mix strength slump = Inr m \<and> 0 \<le> val (Cement_kg m) \<and>
           0 \<le> val (Water_kg m) \<and> 0 \<le> val (Fine_Aggregate_kg m) \<and>
           0 \<le> val (Coarse_Aggregate_kg m)"
proof -
  have "0 \<le> val slump" using assms(3) by simp
  then show ?thesis
    using cement_pos[OF assms(1)] coarse_nonneg[OF assms(1,2)] water_nonneg[of "val slump"]
      fine_nonneg[OF assms(4)]
    by (simp add: design_mix_formulas Let_def)
qed

text \<open>The upper boundary point, strength 60 and slump 150.\<close>

theorem design_mix_masses_nonneg_witness:
  "(20::rat) \<le> val (PyInt 60) \<and> val (PyInt 60) \<le> (60::rat) \<and> (25::rat) \<le> val (PyInt 150) \<and>
   val (PyInt 150) \<le> (150::rat) \<and>
   (\<exists>m. design_mix (PyInt 60) (PyInt 150) = Inr m \<and> 0 \<le> val (Cement_kg m) \<and>
        0 \<le> val (Water_kg m) \<and> 0 \<le> val (Fine_Aggregate_kg m) \<and>
        0 \<le> val (Coarse_Aggregate_kg m))"
proof -
  have h1: "(20::rat) \<le> val (PyInt 60)" and h2: "val (PyInt 60) \<le> (60::rat)"
    and h3: "(25::rat) \<le> val (PyInt 150)" and h4: "val (PyInt 150) \<le> (150::rat)"
    by simp_all
  from design_mix_masses_nonneg[OF h1 h2 h3 h4] h1 h2 h3 h4 show ?thesis by blast
qed

section \<open>The optimizer: the fields that are not random\<close>



section \<open>The optimizer: the two estimates\<close>

lemma estimates_in_range:
  assumes "\<bar>n\<bar> + d < 2 ^ 53" "0 \<le> d" "of_int n - of_int d \<le> x" "x \<le> of_int n + of_int d"
  shows "of_int n - of_int d \<le> b64 x" and "b64 x \<le> of_int n + of_int d"
proof -
  have "of_int (n - d) \<le> x" using assms(3) by simp
  moreover have "\<bar>n - d\<bar> < 2 ^ 53" using assms(1,2) by linarith
  ultimately have "of_int (n - d) \<le> b64 x" by (rule b64_ge_int)
  then show "of_int n - of_int d \<le> b64 x" by simp
  have "x \<le> of_int (n + d)" using assms(4) by simp
  moreover have "\<bar>n + d\<bar> < 2 ^ 53" using assms(1,2) by linarith
  ultimately have "b64 x \<le> of_int (n + d)" by (rule b64_le_int)
  then show "b64 x \<le> of_int n + of_int d" by simp
qed

text \<open>
  Claim C5, amended. For every \<^verbatim>\<open>int\<close> strength and slump that a \<^verbatim>\<open>float\<close> holds exactly
  together with the ends of the two intervals (\<open>\<bar>strength\<bar> + 2\<close> and \<open>\<bar>slump\<bar> + 10\<close> below
  \<open>2 ^ 53\<close>, so every selectable value), every base mix the calculator produces for them and
  every first draw in [0, 2] and second draw in [-10, 10], the optimizer returns;
  its estimated strength is the rounded difference strength minus first draw and lies in
  [strength - 2, strength]; its estimated slump is the rounded sum slump plus second draw
  and lies in [slump - 10, slump + 10].
\<close>

theorem optimize_mix_estimates:
  assumes "design_mix (PyInt s) (PyInt sl) = Inr base_mix"
    and "\<bar>s\<bar> + 2 < 2 ^ 53" "\<bar>sl\<bar> + 10 < 2 ^ 53"
    and "0 \<le> u1" "u1 \<le> 2" "- 10 \<le> u2" "u2 \<le> 10"
  shows "\<exists>r. optimize_mix base_mix (PyInt s) (PyInt sl) u1 u2 = Inr r \<and>
           New_Strength_MPa r = PyFloat (b64 (of_int s - u1)) \<and>
           of_int s - 2 \<le> val (New_Strength_MPa r) \<and> val (New_Strength_MPa r) \<le> of_int s \<and>
           New_Slump_mm r = PyFloat (b64 (of_int sl + u2)) \<and>
           of_int sl - 10 \<le> val (New_Slump_mm r) \<and> val (New_Slump_mm r) \<le> of_int sl + 10"
proof -
  have s: "b64 (of_int s) = of_int s" using assms(2) by (intro b64_int) linarith
  have sl: "b64 (of_int sl) = of_int sl" using assms(3) by (intro b64_int) linarith
  have "of_int s - of_int 2 \<le> b64 (of_int s - u1)"
    using assms(2,4,5) by (intro estimates_in_range(1)[where n = s and d = 2]) simp_all
  then have lo1: "of_int s - 2 \<le> b64 (of_int s - u1)" by simp
  have hi1: "b64 (of_int s - u1) \<le> of_int s"
    using assms(2,4) by (intro b64_le_int) simp_all
  have "of_int sl - of_int 10 \<le> b64 (of_int sl + u2)"
    using assms(3,6,7) by (intro estimates_in_range(1)[where n = sl and d = 10]) simp_all
  then have lo2: "of_int sl - 10 \<le> b64 (of_int sl + u2)" by simp
  have "b64 (of_int sl + u2) \<le> of_int sl + of_int 10"
    using assms(3,6,7) by (intro estimates_in_range(2)[where n = sl and d = 10]) simp_all
  then have hi2: "b64 (of_int sl + u2) \<le> of_int sl + 10" by simp
  show ?thesis
    using lo1 hi1 lo2 hi2
    by (simp add: optimize_mix_explicit[OF design_mix_cement_nonzero[OF assms(1)]] Let_def
        py_sub_float_right py_add_float_right s sl)
qed

text \<open>
  At strength 30 and slump 75 with the extreme draws 2 and -10: the estimates lie in
  [28, 30] and in [65, 85].
\<close>

theorem optimize_mix_estimates_witness:
  "design_mix (PyInt 30) (PyInt 75) =
     Inr \<lparr>Cement_kg = PyInt 400, Water_kg = PyFloat 190, Fine_Aggregate_kg = PyFloat 675,
          Coarse_Aggregate_kg = PyInt 1000, w_c = lit (475 / 1000)\<rparr> \<and>
   \<bar>30\<bar> + 2 < (2::int) ^ 53 \<and> \<bar>75\<bar> + 10 < (2::int) ^ 53 \<and>
   (0::rat) \<le> 2 \<and> (2::rat) \<le> 2 \<and> - 10 \<le> (- 10 :: rat) \<and> (- 10 :: rat) \<le> 10 \<and>
   (\<exists>r. optimize_mix
          \<lparr>Cement_kg = PyInt 400, Water_kg = PyFloat 190, Fine_Aggregate_kg = PyFloat 675,
           Coarse_Aggregate_kg = PyInt 1000, w_c = lit (475 / 1000)\<rparr>
          (PyInt 30) (PyInt 75) 2 (- 10) = Inr r \<and>
        28 \<le> val (New_Strength_MPa r) \<and> val (New_Strength_MPa r) \<le> 30 \<and>
        65 \<le> val (New_Slump_mm r) \<and> val (New_Slump_mm r) \<le> 85)"
proof -
  have h: "design_mix (PyInt 30) (PyInt 75) =
     Inr \<lparr>Cement_kg = PyInt 400, Water_kg = PyFloat 190, Fine_Aggregate_kg = PyFloat 675,
          Coarse_Aggregate_kg = PyInt 1000, w_c = lit (475 / 1000)\<rparr>"
    by (simp add: design_mix_formulas Let_def lit_def b64_consts b64_numeral b64_values)
  have h2: "\<bar>30\<bar> + 2 < (2::int) ^ 53" and h3: "\<bar>75\<bar> + 10 < (2::int) ^ 53"
    and h4: "(0::rat) \<le> 2" and h5: "(2::rat) \<le> 2" and h6: "- 10 \<le> (- 10 :: rat)"
    and h7: "(- 10 :: rat) \<le> 10"
    by simp_all
  from optimize_mix_estimates[OF h h2 h3 h4 h5 h6 h7]
  have "\<exists>r. optimize_mix
          \<lparr>Cement_kg = PyInt 400, Water_kg = PyFloat 190, Fine_Aggregate_kg = PyFloat 675,
           Coarse_Aggregate_kg = PyInt 1000, w_c = lit (475 / 1000)\<rparr>
          (PyInt 30) (PyInt 75) 2 (- 10) = Inr r \<and>
        28 \<le> val (New_Strength_MPa r) \<and> val (New_Strength_MPa r) \<le> 30 \<and>
        65 \<le> val (New_Slump_mm r) \<and> val (New_Slump_mm r) \<le> 85"
    by auto
  with h h2 h3 h4 h5 h6 h7 show ?thesis by blast
qed

text \<open>
  The claim as stated, for every strength, fails where a \<^verbatim>\<open>float\<close> cannot hold the
  strength: the \<^verbatim>\<open>int\<close> \<open>2 ^ 54 + 3\<close> is converted to \<open>2 ^ 54 + 4\<close>, and with the first draw
  0 the estimated strength is above the strength.
\<close>

theorem estimate_above_strength:
  "design_mix (PyInt 18014398509481987) (PyInt 75) =
     Inr \<lparr>Cement_kg = PyInt 90071992547410185, Water_kg = PyFloat 190,
          Fine_Aggregate_kg = PyFloat 675, Coarse_Aggregate_kg = PyInt (- 180143985094818570),
          w_c = PyFloat (334251534843903 / 158456325028528675187087900672)\<rparr> \<and>
   map_sum id New_Strength_MPa
     (optimize_mix
        \<lparr>Cement_kg = PyInt 90071992547410185, Water_kg = PyFloat 190,
         Fine_Aggregate_kg = PyFloat 675, Coarse_Aggregate_kg = PyInt (- 180143985094818570),
         w_c = PyFloat (334251534843903 / 158456325028528675187087900672)\<rparr>
        (PyInt 18014398509481987) (PyInt 75) 0 0) = Inr (PyFloat 18014398509481988) \<and>
   (18014398509481987 :: rat) < val (PyFloat 18014398509481988)"
proof -
  have "val (Cement_kg \<lparr>Cement_kg = PyInt 90071992547410185, Water_kg = PyFloat 190,
         Fine_Aggregate_kg = PyFloat 675, Coarse_Aggregate_kg = PyInt (- 180143985094818570),
         w_c = PyFloat (334251534843903 / 158456325028528675187087900672)\<rparr>) \<noteq> 0"
    by simp
  note explicit = optimize_mix_explicit[OF this]
  show ?thesis
    by (simp add: explicit design_mix_formulas Let_def py_sub_float_right b64_consts
        b64_numeral b64_values)
qed

section \<open>Determinism\<close>



section \<open>The optimizer: the two parts of a mass\<close>








section \<open>The optimizer: the water-cement ratio\<close>







end
